theory Spec2Isabelle
  imports Main "HOL-Library.AList"
begin

section \<open>Deferred calls on parametrized objects (pulser/parametrized/paramobj.py)\<close>

text \<open>
  A \<open>ParamObj\<close> holds a call \<open>cls(*args, **kwargs)\<close> whose arguments may be symbolic
  (instances of \<open>Parametrized\<close>: variables and other \<open>ParamObj\<close> nodes). \<open>build()\<close>
  evaluates the call and memoizes the result against a snapshot of the version
  counters of the variables the node refers to.

  The embedding keeps what \<open>__init__\<close> stores and never reassigns (\<open>cls\<close>, \<open>args\<close>,
  \<open>kwargs\<close>) in the node itself, together with the node's address, and keeps every
  mutable field (\<open>_variables\<close>, \<open>_instance\<close>, \<open>_vars_state\<close>, and the variables'
  \<open>_count\<close>) in an explicit store indexed by address, so that a node shared by several
  parents has one cache.
\<close>

subsection \<open>Values, exceptions, nodes\<close>

type_synonym key = string

text \<open>
  Python values that are not \<open>Parametrized\<close>. \<open>PyFunc m n\<close> is a function or class
  known by its module \<open>m\<close> and name \<open>n\<close> (\<open>operator.add\<close>, the builtin \<open>getattr\<close>, a
  pulse constructor); \<open>PyObj\<close> is any other object; \<open>PyVariable\<close> is a \<open>Variable\<close>
  object handed to the runtime as it is (never built).
\<close>

datatype pyval =
    PyNone
  | PyInt int
  | PyStr string
  | PyFunc string string
  | PyVariable key nat
  | PyObj nat

text \<open>
  Exceptions: \<open>AttributeError\<close> with its message, and any other exception (one a
  wrapped callable raises, or the \<open>TypeError\<close> of a call that binds a parameter
  twice), by its name.
\<close>

datatype exn = AttributeError string | Raised string

text \<open>
  An operand of a call: a concrete value, a \<open>Variable\<close> (its name and its address in
  the variable store) or a \<open>ParamObj\<close> (its address in the node store, \<open>cls\<close>, \<open>args\<close>,
  \<open>kwargs\<close>; keyword arguments keep their insertion order).
\<close>

datatype param =
    Conc pyval
  | Var key nat
  | PObj nat param "param list" "(key \<times> param) list"

text \<open>
  What the core consumes from the Python runtime and from the wrapped callables, which
  are opaque to it: calling an object, \<open>hasattr\<close> on a concrete object, its \<open>__name__\<close>
  and \<open>__module__\<close> (absent for objects that declare none), its default textual form,
  and the names that a \<open>ParamObj\<close> instance inherits from \<open>Parametrized\<close> and
  \<open>object\<close>, which ordinary lookup finds besides the names the source file itself
  defines. Wrapped callables are taken to be
  functions of their arguments that leave nodes and variables alone.
\<close>

record runtime =
  rt_call :: "pyval \<Rightarrow> pyval list \<Rightarrow> (key \<times> pyval) list \<Rightarrow> exn + pyval"
  rt_hasattr :: "pyval \<Rightarrow> string \<Rightarrow> bool"
  rt_name :: "pyval \<Rightarrow> string option"
  rt_module :: "pyval \<Rightarrow> string option"
  rt_str :: "pyval \<Rightarrow> string"
  rt_node_attr :: "string \<Rightarrow> bool"

text \<open>
  The store. \<open>var_count\<close> and \<open>var_value\<close> are the \<open>_count\<close> and the current value of
  each \<open>Variable\<close>; \<open>node_vars\<close>, \<open>instance_of\<close> and \<open>vars_state\<close> are the
  \<open>_variables\<close>, \<open>_instance\<close> and \<open>_vars_state\<close> of each \<open>ParamObj\<close>. \<open>calls\<close> logs
  every invocation of a callable by \<open>build\<close> (the call counter of a stub callable),
  \<open>warnings\<close> collects what \<open>warnings.warn\<close> is given, \<open>next_addr\<close> is the next free
  node address.
\<close>

record state =
  var_count :: "nat \<Rightarrow> int"
  var_value :: "nat \<Rightarrow> pyval"
  node_vars :: "nat \<Rightarrow> (key \<times> nat) list"
  instance_of :: "nat \<Rightarrow> pyval"
  vars_state :: "nat \<Rightarrow> (key \<times> int) list"
  calls :: "(pyval \<times> pyval list \<times> (key \<times> pyval) list) list"
  warnings :: "string list"
  next_addr :: nat

fun is_Parametrized :: "param \<Rightarrow> bool" where
  "is_Parametrized (Conc v) = False"
| "is_Parametrized (Var k a) = True"
| "is_Parametrized (PObj a cls args kwargs) = True"

fun is_ParamObj :: "param \<Rightarrow> bool" where
  "is_ParamObj (PObj a cls args kwargs) = True"
| "is_ParamObj x = False"

text \<open>The node addresses occurring in an operand.\<close>

fun addrs :: "param \<Rightarrow> nat set" where
  "addrs (Conc v) = {}"
| "addrs (Var k a) = {}"
| "addrs (PObj a cls args kwargs) =
     insert a (addrs cls \<union> (\<Union>x \<in> set args. addrs x) \<union> (\<Union>x \<in> set (map snd kwargs). addrs x))"

subsection \<open>Dictionaries\<close>

text \<open>
  A \<open>dict\<close> is an association list in insertion order. \<open>d.update(other)\<close> stores each
  item of \<open>other\<close> in turn: in place when the key is present, at the end otherwise.
  Two dicts are equal when they map the same keys to the same values, in any order.
\<close>

definition dict_update :: "('k \<times> 'v) list \<Rightarrow> ('k \<times> 'v) list \<Rightarrow> ('k \<times> 'v) list" where
  "dict_update d other = fold (\<lambda>(k, v). AList.update k v) other d"

definition dict_eq :: "('k \<times> 'v) list \<Rightarrow> ('k \<times> 'v) list \<Rightarrow> bool" where
  "dict_eq a b \<longleftrightarrow> map_of a = map_of b"

subsection \<open>ParamObj.__init__ and the variables property\<close>

text \<open>
  Modelled from the spec: the \<open>Variable\<close> class is not part of the source file. A
  variable is identified by its name, carries a version counter and a current value,
  is built by returning its current value, and its \<open>variables\<close> mapping holds itself
  under its name.
\<close>

fun variables :: "state \<Rightarrow> param \<Rightarrow> (key \<times> nat) list" where
  "variables s (Conc v) = []"
| "variables s (Var k a) = [(k, a)]"
| "variables s (PObj a cls args kwargs) = node_vars s a"

definition ParamObj :: "param \<Rightarrow> param list \<Rightarrow> (key \<times> param) list \<Rightarrow> state \<Rightarrow> param \<times> state" where
  "ParamObj cls args kwargs s =
    (let a = next_addr s;
         vars0 = (if is_Parametrized cls then dict_update [] (variables s cls) else []);
         vars1 = fold (\<lambda>x d. if is_Parametrized x then dict_update d (variables s x) else d)
                   (args @ map snd kwargs) vars0
     in (PObj a cls args kwargs,
         s\<lparr>node_vars := (node_vars s)(a := vars1),
           instance_of := (instance_of s)(a := PyNone),
           vars_state := (vars_state s)(a := []),
           next_addr := Suc a\<rparr>))"

subsection \<open>ParamObj.build\<close>

text \<open>
  \<open>build rt x s\<close> is \<open>x.build() if isinstance(x, Parametrized) else x\<close>; on a
  \<open>ParamObj\<close> it is the method of the source. An exception leaves the store as it is
  at the raise. \<open>build_args\<close> and \<open>build_kwargs\<close> are the two comprehensions.
\<close>

fun build :: "runtime \<Rightarrow> param \<Rightarrow> state \<Rightarrow> (exn + pyval) \<times> state"
and build_args :: "runtime \<Rightarrow> param list \<Rightarrow> state \<Rightarrow> (exn + pyval list) \<times> state"
and build_kwargs :: "runtime \<Rightarrow> (key \<times> param) list \<Rightarrow> state \<Rightarrow> (exn + (key \<times> pyval) list) \<times> state"
where
  "build rt (Conc v) s = (Inr v, s)"
| "build rt (Var k a) s = (Inr (var_value s a), s)"
| "build rt (PObj a cls args kwargs) s =
    (let vs = map (\<lambda>(key, var). (key, var_count s var)) (node_vars s a) in
     if \<not> dict_eq vs (vars_state s a) then
       (case build_args rt args (s\<lparr>vars_state := (vars_state s)(a := vs)\<rparr>) of
          (Inl e, s2) \<Rightarrow> (Inl e, s2)
        | (Inr args', s2) \<Rightarrow>
       (case build_kwargs rt kwargs s2 of
          (Inl e, s3) \<Rightarrow> (Inl e, s3)
        | (Inr kwargs', s3) \<Rightarrow>
       (case (case cls of
                PObj _ _ _ _ \<Rightarrow> build rt cls s3
              | Var k v \<Rightarrow> (Inr (PyVariable k v), s3)
              | Conc f \<Rightarrow> (Inr f, s3)) of
          (Inl e, s4) \<Rightarrow> (Inl e, s4)
        | (Inr obj, s4) \<Rightarrow>
       (case rt_call rt obj args' kwargs' of
          Inl e \<Rightarrow> (Inl e, s4\<lparr>calls := calls s4 @ [(obj, args', kwargs')]\<rparr>)
        | Inr r \<Rightarrow> (Inr r, s4\<lparr>instance_of := (instance_of s4)(a := r),
                               calls := calls s4 @ [(obj, args', kwargs')]\<rparr>)))))
     else (Inr (instance_of s a), s))"
| "build_args rt [] s = (Inr [], s)"
| "build_args rt (x # xs) s =
    (case build rt x s of
       (Inl e, s1) \<Rightarrow> (Inl e, s1)
     | (Inr v, s1) \<Rightarrow>
    (case build_args rt xs s1 of
       (Inl e, s2) \<Rightarrow> (Inl e, s2)
     | (Inr vs, s2) \<Rightarrow> (Inr (v # vs), s2)))"
| "build_kwargs rt [] s = (Inr [], s)"
| "build_kwargs rt ((k, x) # xs) s =
    (case build rt x s of
       (Inl e, s1) \<Rightarrow> (Inl e, s1)
     | (Inr v, s1) \<Rightarrow>
    (case build_kwargs rt xs s1 of
       (Inl e, s2) \<Rightarrow> (Inl e, s2)
     | (Inr vs, s2) \<Rightarrow> (Inr ((k, v) # vs), s2)))"

text \<open>The snapshot \<open>{key: var._count for key, var in self._variables.items()}\<close>.\<close>

definition snapshot :: "state \<Rightarrow> nat \<Rightarrow> (key \<times> int) list" where
  "snapshot s a = map (\<lambda>(key, var). (key, var_count s var)) (node_vars s a)"

subsection \<open>OpSupport\<close>

definition reversible_ops :: "string list" where
  "reversible_ops =
     [''__add__'', ''__sub__'', ''__mul__'', ''__truediv__'', ''__floordiv__'',
      ''__pow__'', ''__mod__'']"

text \<open>
  \<open>getattr(operator, op_name)\<close> for the names the source passes: the functions of the
  standard \<open>operator\<close> module, and \<open>operator.neg\<close>, \<open>operator.abs\<close>.
\<close>

definition operator_table :: "(string \<times> pyval) list" where
  "operator_table =
     [(''__add__'', PyFunc ''_operator'' ''add''),
      (''__sub__'', PyFunc ''_operator'' ''sub''),
      (''__mul__'', PyFunc ''_operator'' ''mul''),
      (''__truediv__'', PyFunc ''_operator'' ''truediv''),
      (''__floordiv__'', PyFunc ''_operator'' ''floordiv''),
      (''__pow__'', PyFunc ''_operator'' ''pow''),
      (''__mod__'', PyFunc ''_operator'' ''mod'')]"

definition operator_neg :: pyval where
  "operator_neg = PyFunc ''_operator'' ''neg''"

definition operator_abs :: pyval where
  "operator_abs = PyFunc ''_operator'' ''abs''"

definition do_op :: "string \<Rightarrow> param \<Rightarrow> param \<Rightarrow> state \<Rightarrow> (exn + param) \<times> state" where
  "do_op op_name self other s =
    (case map_of operator_table op_name of
       None \<Rightarrow> (Inl (AttributeError op_name), s)
     | Some f \<Rightarrow> (case ParamObj (Conc f) [self, other] [] s of (obj, s1) \<Rightarrow> (Inr obj, s1)))"

definition do_rop :: "string \<Rightarrow> param \<Rightarrow> param \<Rightarrow> state \<Rightarrow> (exn + param) \<times> state" where
  "do_rop op_name self other s =
    (case map_of operator_table op_name of
       None \<Rightarrow> (Inl (AttributeError op_name), s)
     | Some f \<Rightarrow> (case ParamObj (Conc f) [other, self] [] s of (obj, s1) \<Rightarrow> (Inr obj, s1)))"

definition OpSupport_neg :: "param \<Rightarrow> state \<Rightarrow> param \<times> state" where
  "OpSupport_neg self s = ParamObj (Conc operator_neg) [self] [] s"

definition OpSupport_abs :: "param \<Rightarrow> state \<Rightarrow> param \<times> state" where
  "OpSupport_abs self s = ParamObj (Conc operator_abs) [self] [] s"

text \<open>
  The injection loop: for each name in \<open>reversible_ops\<close> the class gets the forward
  method under that name and the reflected method under \<open>"__r" + method[2:]\<close>.
  \<open>magic name\<close> looks a binary magic method up in the resulting class.
\<close>

definition rmethod :: "string \<Rightarrow> string" where
  "rmethod m = ''__r'' @ drop 2 m"

definition OpSupport_methods ::
  "(string \<times> (param \<Rightarrow> param \<Rightarrow> state \<Rightarrow> (exn + param) \<times> state)) list" where
  "OpSupport_methods =
     fold (\<lambda>m tab. AList.update (rmethod m) (do_rop m) (AList.update m (do_op m) tab))
       reversible_ops []"

definition magic :: "string \<Rightarrow> param \<Rightarrow> param \<Rightarrow> state \<Rightarrow> (exn + param) \<times> state" where
  "magic name self other s =
    (case map_of OpSupport_methods name of
       None \<Rightarrow> (Inl (AttributeError name), s)
     | Some m \<Rightarrow> m self other s)"

subsection \<open>ParamObj.__str__\<close>

fun join :: "string \<Rightarrow> string list \<Rightarrow> string" where
  "join sep [] = []"
| "join sep [x] = x"
| "join sep (x # y # ys) = x @ sep @ join sep (y # ys)"

text \<open>
  \<open>str rt x\<close> is \<open>str(x)\<close>: the method of the source on a \<open>ParamObj\<close>, the default
  textual form otherwise. Reading \<open>__name__\<close> from an object that declares none raises
  \<open>AttributeError\<close>.
\<close>

fun str :: "runtime \<Rightarrow> param \<Rightarrow> exn + string"
and str_args :: "runtime \<Rightarrow> param list \<Rightarrow> exn + string list"
and str_kwargs :: "runtime \<Rightarrow> (key \<times> param) list \<Rightarrow> exn + string list"
where
  "str rt (Conc v) = Inr (rt_str rt v)"
| "str rt (Var k a) = Inr (rt_str rt (PyVariable k a))"
| "str rt (PObj a cls args kwargs) =
    (case str_args rt args of
       Inl e \<Rightarrow> Inl e
     | Inr args' \<Rightarrow>
    (case str_kwargs rt kwargs of
       Inl e \<Rightarrow> Inl e
     | Inr kwargs' \<Rightarrow>
    (case (case cls of
             Conc f \<Rightarrow> (case rt_name rt f of
                          None \<Rightarrow> Inl (AttributeError ''__name__'')
                        | Some n \<Rightarrow> Inr n)
           | Var k v \<Rightarrow> str rt cls
           | PObj _ _ _ _ \<Rightarrow> str rt cls) of
       Inl e \<Rightarrow> Inl e
     | Inr name \<Rightarrow> Inr (name @ ''('' @ join '', '' (args' @ kwargs') @ '')''))))"
| "str_args rt [] = Inr []"
| "str_args rt (x # xs) =
    (case str rt x of
       Inl e \<Rightarrow> Inl e
     | Inr r \<Rightarrow> (case str_args rt xs of Inl e \<Rightarrow> Inl e | Inr rs \<Rightarrow> Inr (r # rs)))"
| "str_kwargs rt [] = Inr []"
| "str_kwargs rt ((k, x) # xs) =
    (case str rt x of
       Inl e \<Rightarrow> Inl e
     | Inr r \<Rightarrow> (case str_kwargs rt xs of
                  Inl e \<Rightarrow> Inl e
                | Inr rs \<Rightarrow> Inr ((k @ ''='' @ r) # rs)))"

subsection \<open>ParamObj.__call__ and ParamObj.__getattr__\<close>

definition stray_call_message :: "string \<Rightarrow> string" where
  "stray_call_message r =
     ''Calls to methods of parametrized objects are only '' @
     ''executed if they serve as arguments of other '' @
     ''parametrized objects that are themselves built. If this'' @
     '' is not the case, the call to '' @ r @ '' will not be '' @
     ''executed upon sequence building.''"

text \<open>
  The signatures \<open>__call__(self, *args, **kwargs)\<close> and
  \<open>__init__(self, cls, *args, **kwargs)\<close> name the parameters \<open>self\<close> and \<open>cls\<close>. A
  keyword argument \<open>self\<close> gives \<open>self\<close> a second value when \<open>__call__\<close> is entered;
  a keyword argument \<open>cls\<close> passes \<open>__call__\<close> and gives \<open>cls\<close> a second value
  when \<open>ParamObj(self, *args, **kwargs)\<close> enters \<open>__init__\<close>. Either way Python raises
  \<open>TypeError\<close> before a node is initialised or a warning emitted.
\<close>

definition binds_twice :: "(key \<times> param) list \<Rightarrow> bool" where
  "binds_twice kwargs \<longleftrightarrow> ''self'' \<in> set (map fst kwargs) \<or> ''cls'' \<in> set (map fst kwargs)"

definition call_method ::
  "runtime \<Rightarrow> param \<Rightarrow> param list \<Rightarrow> (key \<times> param) list \<Rightarrow> state \<Rightarrow> (exn + param) \<times> state" where
  "call_method rt self args kwargs s =
    (if binds_twice kwargs then (Inl (Raised ''TypeError''), s)
     else
       (case ParamObj self args kwargs s of
          (obj, s1) \<Rightarrow>
            (case str rt obj of
               Inl e \<Rightarrow> (Inl e, s1)
             | Inr r \<Rightarrow> (Inr obj, s1\<lparr>warnings := warnings s1 @ [stray_call_message r]\<rparr>))))"

text \<open>
  The names the source file defines on a \<open>ParamObj\<close>: the fields \<open>__init__\<close> assigns,
  the methods and the property of the class, the methods of \<open>OpSupport\<close> and the
  operator methods injected into it. Ordinary attribute lookup finds these and the
  inherited names.
\<close>

definition own_attributes :: "string list" where
  "own_attributes =
     [''cls'', ''_variables'', ''args'', ''kwargs'', ''_instance'', ''_vars_state'',
      ''__init__'', ''variables'', ''build'', ''_to_dict'', ''__call__'', ''__getattr__'',
      ''__str__'', ''_do_op'', ''_do_rop'', ''__neg__'', ''__abs__''] @
     map fst OpSupport_methods"

definition found_on_node :: "runtime \<Rightarrow> string \<Rightarrow> bool" where
  "found_on_node rt name \<longleftrightarrow> name \<in> set own_attributes \<or> rt_node_attr rt name"

text \<open>
  \<open>hasattr(x, name)\<close>. On a \<open>ParamObj\<close>, ordinary lookup is tried first and
  \<open>__getattr__\<close> after it, which raises \<open>AttributeError\<close> exactly when its own
  \<open>hasattr(self.cls, name)\<close> fails; the node a successful nested lookup creates is
  dropped at once. \<open>getattr_method\<close> is \<open>__getattr__\<close> itself, which Python calls
  only for a name that ordinary lookup does not find; only a \<open>ParamObj\<close> has it.
\<close>

fun hasattr :: "runtime \<Rightarrow> param \<Rightarrow> string \<Rightarrow> bool" where
  "hasattr rt (Conc v) name = rt_hasattr rt v name"
| "hasattr rt (Var k a) name = rt_hasattr rt (PyVariable k a) name"
| "hasattr rt (PObj a cls args kwargs) name = (found_on_node rt name \<or> hasattr rt cls name)"

definition builtin_getattr :: pyval where
  "builtin_getattr = PyFunc ''builtins'' ''getattr''"

definition no_attribute_message :: "string \<Rightarrow> string \<Rightarrow> string" where
  "no_attribute_message name r =
     ''No attribute named '' @ [CHR 0x27] @ name @ [CHR 0x27] @ '' in '' @ r @ ''.''"

fun getattr_method :: "runtime \<Rightarrow> param \<Rightarrow> string \<Rightarrow> state \<Rightarrow> (exn + param) \<times> state" where
  "getattr_method rt (PObj a cls args kwargs) name s =
    (if hasattr rt cls name then
       (case ParamObj (Conc builtin_getattr) [PObj a cls args kwargs, Conc (PyStr name)] [] s of
          (obj, s1) \<Rightarrow> (Inr obj, s1))
     else
       (case str rt (PObj a cls args kwargs) of
          Inl e \<Rightarrow> (Inl e, s)
        | Inr r \<Rightarrow> (Inl (AttributeError (no_attribute_message name r)), s)))"
| "getattr_method rt x name s = (Inl (AttributeError name), s)"

text \<open>
  The attribute access \<open>x.name\<close> on a node: ordinary lookup answers for a name it
  finds (\<open>Ordinary\<close>: the field, property value or bound method of that name), and
  \<open>__getattr__\<close> is consulted for any other name (\<open>Proxy\<close>: the node it returns).
\<close>

datatype attribute = Ordinary string | Proxy param

fun attribute_access :: "runtime \<Rightarrow> param \<Rightarrow> string \<Rightarrow> state \<Rightarrow> (exn + attribute) \<times> state" where
  "attribute_access rt (PObj a cls args kwargs) name s =
    (if found_on_node rt name then (Inr (Ordinary name), s)
     else
       (case getattr_method rt (PObj a cls args kwargs) name s of
          (Inl e, s1) \<Rightarrow> (Inl e, s1)
        | (Inr y, s1) \<Rightarrow> (Inr (Proxy y), s1)))"
| "attribute_access rt x name s = (Inl (AttributeError name), s)"

subsection \<open>ParamObj._to_dict\<close>

text \<open>
  Modelled from the spec: \<open>pulser.utils.obj_to_dict\<close> is not part of the source file;
  the core only fixes what is handed to it. A description is therefore the record of
  that call: the object, the positional arguments in order and the keyword arguments
  in order. \<open>Var_to_dict\<close> stands for the description a \<open>Variable\<close> gives of itself;
  an object that is not symbolic has no \<open>_to_dict\<close>, and the source never asks it.
\<close>

datatype descr =
    Obj_to_dict param "darg list" "(key \<times> darg) list"
  | Var_to_dict key nat
and darg =
    Described descr
  | Operand param
  | Flag bool
  | Text string

fun to_dict :: "runtime \<Rightarrow> param \<Rightarrow> state \<Rightarrow> (exn + descr) \<times> state" where
  "to_dict rt (Conc v) s = (Inl (AttributeError ''_to_dict''), s)"
| "to_dict rt (Var k a) s = (Inr (Var_to_dict k a), s)"
| "to_dict rt (PObj a cls args kwargs) s =
    (case (case cls of
             Conc f \<Rightarrow>
               (case rt_name rt f of
                  None \<Rightarrow> (Inl (AttributeError ''__name__''), s)
                | Some n \<Rightarrow>
               (case rt_module rt f of
                  None \<Rightarrow> (Inl (AttributeError ''__module__''), s)
                | Some m \<Rightarrow>
                    (Inr (Obj_to_dict (PObj a cls args kwargs) []
                            [(''_build'', Flag False), (''_name'', Text n), (''_module'', Text m)]), s)))
           | Var k v \<Rightarrow> to_dict rt cls s
           | PObj _ _ _ _ \<Rightarrow> to_dict rt cls s) of
       (Inl e, s1) \<Rightarrow> (Inl e, s1)
     | (Inr cls_dict, s1) \<Rightarrow>
         (Inr (Obj_to_dict (PObj a cls args kwargs)
                 (Described cls_dict # map Operand args)
                 (map (\<lambda>(k, v). (k, Operand v)) kwargs)), s1))"

section \<open>Notions used to state and prove the properties\<close>

text \<open>
  The miss branch of \<open>build\<close> is a sequence of steps, each of which may raise:
  record the snapshot, build the positional arguments, build the keyword arguments,
  resolve the callable, invoke it. \<open>bind_result\<close> sequences two such steps.
\<close>

definition bind_result :: "(state \<Rightarrow> (exn + 'a) \<times> state) \<Rightarrow> ('a \<Rightarrow> state \<Rightarrow> (exn + 'b) \<times> state) \<Rightarrow> state \<Rightarrow> (exn + 'b) \<times> state" where
  "bind_result m f s = (case m s of (Inl e, s1) \<Rightarrow> (Inl e, s1) | (Inr v, s1) \<Rightarrow> f v s1)"

definition ret :: "'a \<Rightarrow> state \<Rightarrow> (exn + 'a) \<times> state" where
  "ret v s = (Inr v, s)"

text \<open>
  \<open>build_cls\<close> is the expression \<open>self.cls.build() if isinstance(self.cls, ParamObj)
  else self.cls\<close>, \<open>invoke\<close> the statement \<open>self._instance = obj(*args_, **kwargs_)\<close>
  with its entry in the call log, \<open>record_snapshot\<close> the statement
  \<open>self._vars_state = vars_state\<close>. \<open>evaluate\<close> is the body of the \<open>if\<close> after that
  statement, and \<open>operands\<close> the part of it that comes before the invocation: the
  resolved callable with the built positional and keyword arguments.
\<close>

definition build_cls :: "runtime \<Rightarrow> param \<Rightarrow> state \<Rightarrow> (exn + pyval) \<times> state" where
  "build_cls rt cls s =
     (case cls of
        PObj _ _ _ _ \<Rightarrow> build rt cls s
      | Var k v \<Rightarrow> (Inr (PyVariable k v), s)
      | Conc f \<Rightarrow> (Inr f, s))"

definition invoke :: "runtime \<Rightarrow> nat \<Rightarrow> pyval \<Rightarrow> pyval list \<Rightarrow> (key \<times> pyval) list \<Rightarrow> state \<Rightarrow> (exn + pyval) \<times> state" where
  "invoke rt a obj args' kwargs' s =
     (case rt_call rt obj args' kwargs' of
        Inl e \<Rightarrow> (Inl e, s\<lparr>calls := calls s @ [(obj, args', kwargs')]\<rparr>)
      | Inr r \<Rightarrow> (Inr r, s\<lparr>instance_of := (instance_of s)(a := r),
                             calls := calls s @ [(obj, args', kwargs')]\<rparr>))"

definition evaluate :: "runtime \<Rightarrow> nat \<Rightarrow> param \<Rightarrow> param list \<Rightarrow> (key \<times> param) list \<Rightarrow> state \<Rightarrow> (exn + pyval) \<times> state" where
  "evaluate rt a cls args kwargs =
     bind_result (build_args rt args) (\<lambda>args'.
     bind_result (build_kwargs rt kwargs) (\<lambda>kwargs'.
     bind_result (build_cls rt cls) (\<lambda>obj. invoke rt a obj args' kwargs')))"

definition operands :: "runtime \<Rightarrow> param \<Rightarrow> param list \<Rightarrow> (key \<times> param) list \<Rightarrow> state \<Rightarrow> (exn + pyval \<times> pyval list \<times> (key \<times> pyval) list) \<times> state" where
  "operands rt cls args kwargs =
     bind_result (build_args rt args) (\<lambda>args'.
     bind_result (build_kwargs rt kwargs) (\<lambda>kwargs'.
     bind_result (build_cls rt cls) (\<lambda>obj. ret (obj, args', kwargs'))))"

definition record_snapshot :: "nat \<Rightarrow> state \<Rightarrow> (exn + unit) \<times> state" where
  "record_snapshot a s = (Inr (), s\<lparr>vars_state := (vars_state s)(a := snapshot s a)\<rparr>)"

text \<open>
  A node cannot be its own argument: \<open>args\<close>, \<open>kwargs\<close> and \<open>cls\<close> exist before
  \<open>__init__\<close> runs. In the embedding this is the condition that the address of a
  node does not occur below it.
\<close>

definition child_addrs :: "param \<Rightarrow> param list \<Rightarrow> (key \<times> param) list \<Rightarrow> nat set" where
  "child_addrs cls args kwargs =
     addrs cls \<union> (\<Union>x \<in> set args. addrs x) \<union> (\<Union>x \<in> set (map snd kwargs). addrs x)"

fun acyclic_node :: "param \<Rightarrow> bool" where
  "acyclic_node (PObj a cls args kwargs) = (a \<notin> child_addrs cls args kwargs)"
| "acyclic_node x = True"

text \<open>
  The footprint of a step from \<open>s\<close> with addresses \<open>A\<close>: it leaves the variables, the
  nodes' \<open>_variables\<close>, the warnings and the allocator alone, only appends to the call
  log, touches the cache of no node outside \<open>A\<close>, and an exception it raises is the
  one the last logged call raised.
\<close>

definition effect :: "runtime \<Rightarrow> nat set \<Rightarrow> (state \<Rightarrow> (exn + 'a) \<times> state) \<Rightarrow> state \<Rightarrow> bool" where
  "effect rt A m s \<longleftrightarrow>
     (case m s of (res, t) \<Rightarrow>
        var_count t = var_count s \<and> var_value t = var_value s \<and> node_vars t = node_vars s \<and>
        warnings t = warnings s \<and> next_addr t = next_addr s \<and>
        (\<exists>cs. calls t = calls s @ cs) \<and>
        (\<forall>a. a \<notin> A \<longrightarrow> instance_of t a = instance_of s a \<and> vars_state t a = vars_state s a) \<and>
        (\<forall>e. res = Inl e \<longrightarrow>
           (\<exists>cs obj xs kw. calls t = calls s @ cs @ [(obj, xs, kw)] \<and> rt_call rt obj xs kw = Inl e)))"

text \<open>
  The part of a sub-object in the \<open>variables\<close> of a node built over it: its own
  \<open>variables\<close> mapping when it is symbolic, nothing otherwise.
\<close>

definition contribution :: "state \<Rightarrow> param \<Rightarrow> key \<rightharpoonup> nat" where
  "contribution s x = (if is_Parametrized x then map_of (variables s x) else Map.empty)"

text \<open>
  A step from \<open>s\<close> to \<open>t\<close> that builds nothing: the call log, the variables and the
  fields of every node but the one at the next free address are the same in \<open>t\<close>.
\<close>

definition allocates_only :: "state \<Rightarrow> state \<Rightarrow> bool" where
  "allocates_only s t \<longleftrightarrow>
     calls t = calls s \<and> var_count t = var_count s \<and> var_value t = var_value s \<and>
     (\<forall>b. b \<noteq> next_addr s \<longrightarrow>
        node_vars t b = node_vars s b \<and> instance_of t b = instance_of s b \<and>
        vars_state t b = vars_state s b)"

text \<open>
  A node has a rendering when every target in it that is not symbolic declares a
  \<open>__name__\<close>. \<open>spec_render\<close> follows the words of the specification for that
  rendering: \<open><name>(<args>, <key>=<value>, ...)\<close>, the name being the rendering of a
  symbolic target and the declared name of any other, every argument and keyword
  value rendered recursively when symbolic and by its default textual form otherwise.
\<close>

fun named :: "runtime \<Rightarrow> param \<Rightarrow> bool" where
  "named rt (Conc v) = True"
| "named rt (Var k a) = True"
| "named rt (PObj a cls args kwargs) =
     ((case cls of Conc f \<Rightarrow> rt_name rt f \<noteq> None | Var k v \<Rightarrow> True | PObj _ _ _ _ \<Rightarrow> named rt cls) \<and>
      (\<forall>x \<in> set args. named rt x) \<and> (\<forall>(k, x) \<in> set kwargs. named rt x))"

fun spec_render :: "runtime \<Rightarrow> param \<Rightarrow> string" where
  "spec_render rt (Conc v) = rt_str rt v"
| "spec_render rt (Var k a) = rt_str rt (PyVariable k a)"
| "spec_render rt (PObj a cls args kwargs) =
     (case cls of
        Conc f \<Rightarrow> (case rt_name rt f of Some n \<Rightarrow> n | None \<Rightarrow> [])
      | Var k v \<Rightarrow> rt_str rt (PyVariable k v)
      | PObj _ _ _ _ \<Rightarrow> spec_render rt cls) @
     ''('' @
     join '', '' (map (spec_render rt) args @ map (\<lambda>(k, x). k @ ''='' @ spec_render rt x) kwargs) @
     '')''"

text \<open>
  \<open>poke a x\<close> overwrites the snapshot of the node at \<open>a\<close>; a step commutes with it
  when it computes the same result from the poked store and ends in the poked
  final store.
\<close>

definition poke :: "nat \<Rightarrow> (key \<times> int) list \<Rightarrow> state \<Rightarrow> state" where
  "poke a x s = s\<lparr>vars_state := (vars_state s)(a := x)\<rparr>"

definition commutes :: "nat \<Rightarrow> (key \<times> int) list \<Rightarrow> (state \<Rightarrow> (exn + 'a) \<times> state) \<Rightarrow> state \<Rightarrow> bool" where
  "commutes a x m s \<longleftrightarrow> m (poke a x s) = (fst (m s), poke a x (snd (m s)))"

text \<open>
  A callable applied to built operands: the operands are built in order (an exception
  of a build propagates), then \<open>f\<close> is called on the built values.
\<close>

definition applied :: "runtime \<Rightarrow> pyval \<Rightarrow> param list \<Rightarrow> state \<Rightarrow> exn + pyval" where
  "applied rt f xs s = (case fst (build_args rt xs s) of Inl e \<Rightarrow> Inl e | Inr vs \<Rightarrow> rt_call rt f vs [])"

section \<open>A sample runtime and sample nodes\<close>

text \<open>
  A small runtime on which the definitions can be run: \<open>operator.add\<close> on integers,
  a constructor \<open>demo.Pulse\<close> whose objects (and the class) expose the attribute
  \<open>amplitude\<close>, \<open>getattr\<close> of that attribute; every other call raises. Only
  functions and classes declare a \<open>__name__\<close>.
\<close>

definition demo_call :: "pyval \<Rightarrow> pyval list \<Rightarrow> (key \<times> pyval) list \<Rightarrow> exn + pyval" where
  "demo_call f xs kw =
     (if f = PyFunc ''_operator'' ''add'' then
        (case xs of [PyInt x, PyInt y] \<Rightarrow> Inr (PyInt (x + y)) | _ \<Rightarrow> Inl (Raised ''TypeError''))
      else if f = PyFunc ''builtins'' ''getattr'' then
        (case xs of
           [PyObj n, PyStr name] \<Rightarrow>
             if name = ''amplitude'' then Inr (PyObj (Suc n)) else Inl (AttributeError name)
         | _ \<Rightarrow> Inl (AttributeError ''getattr''))
      else if f = PyFunc ''demo'' ''Pulse'' then
        (case xs of [PyInt x] \<Rightarrow> Inr (PyObj (nat x)) | _ \<Rightarrow> Inr (PyObj 0))
      else Inl (Raised ''TypeError''))"

definition demo_rt :: runtime where
  "demo_rt =
     \<lparr>rt_call = demo_call,
      rt_hasattr =
        (\<lambda>v name. case v of
             PyFunc m n \<Rightarrow> m = ''demo'' \<and> name = ''amplitude''
           | PyObj n \<Rightarrow> name = ''amplitude''
           | _ \<Rightarrow> False),
      rt_name = (\<lambda>v. case v of PyFunc m n \<Rightarrow> Some n | _ \<Rightarrow> None),
      rt_module = (\<lambda>v. case v of PyFunc m n \<Rightarrow> Some m | _ \<Rightarrow> None),
      rt_str = (\<lambda>v. case v of PyStr x \<Rightarrow> x | PyVariable k a \<Rightarrow> k | _ \<Rightarrow> ''object''),
      rt_node_attr = (\<lambda>name. name \<in> set [''__class__'', ''__dict__'', ''__doc__''])\<rparr>"

text \<open>
  The initial store: every variable has version 0 and value 5, no node is allocated.
\<close>

definition demo_state :: state where
  "demo_state =
     \<lparr>var_count = (\<lambda>a. 0), var_value = (\<lambda>a. PyInt 5),
      node_vars = (\<lambda>a. []), instance_of = (\<lambda>a. PyNone), vars_state = (\<lambda>a. []),
      calls = [], warnings = [], next_addr = 0\<rparr>"

text \<open>
  \<open>x + 3\<close> over the variable \<open>x\<close>: the node, the store after its construction, the
  store after its first build, and that store after \<open>x\<close> was assigned 7 (a new version).
  \<open>demo_rsum\<close> is \<open>3 + x\<close>, \<open>demo_fail\<close> a node whose callable raises.
\<close>

definition demo_sum :: param where
  "demo_sum = PObj 0 (Conc (PyFunc ''_operator'' ''add'')) [Var ''x'' 0, Conc (PyInt 3)] []"

definition demo_sum_state :: state where
  "demo_sum_state = demo_state\<lparr>node_vars := (\<lambda>a. [])(0 := [(''x'', 0)]), next_addr := 1\<rparr>"

definition demo_sum_built :: state where
  "demo_sum_built =
     demo_sum_state\<lparr>vars_state := (\<lambda>a. [])(0 := [(''x'', 0)]),
                    instance_of := (\<lambda>a. PyNone)(0 := PyInt 8),
                    calls := [(PyFunc ''_operator'' ''add'', [PyInt 5, PyInt 3], [])]\<rparr>"

definition demo_sum_bumped :: state where
  "demo_sum_bumped = demo_sum_built\<lparr>var_count := (\<lambda>a. 0)(0 := 1), var_value := (\<lambda>a. PyInt 7)\<rparr>"

definition demo_fail :: param where
  "demo_fail = PObj 0 (Conc (PyFunc ''demo'' ''fail'')) [Var ''x'' 0] []"

text \<open>
  \<open>Pulse(x, phase=y)\<close> over two variables, the call \<open>Pulse(x, phase=y)()\<close> of it and its
  attribute \<open>amplitude\<close>, with the stores after their construction.
\<close>

definition demo_pulse :: param where
  "demo_pulse = PObj 0 (Conc (PyFunc ''demo'' ''Pulse'')) [Var ''x'' 0] [(''phase'', Var ''y'' 1)]"

definition demo_pulse_state :: state where
  "demo_pulse_state =
     demo_state\<lparr>node_vars := (\<lambda>a. [])(0 := [(''x'', 0), (''y'', 1)]), next_addr := 1\<rparr>"

definition demo_called :: param where
  "demo_called = PObj 1 demo_pulse [] []"

text \<open>
  A node over a callable object that declares no \<open>__name__\<close> (as a
  \<open>functools.partial\<close> does not), and nodes without any variable: \<open>Pulse(1)\<close>,
  \<open>Pulse(1) + 3\<close>, \<open>Pulse(1).amplitude\<close>.
\<close>

definition demo_anon :: param where
  "demo_anon = PObj 0 (Conc (PyObj 7)) [Var ''x'' 0] []"

definition demo_const :: param where
  "demo_const = PObj 0 (Conc (PyFunc ''demo'' ''Pulse'')) [Conc (PyInt 1)] []"

definition demo_const_state :: state where
  "demo_const_state = demo_state\<lparr>next_addr := 1\<rparr>"

definition demo_const_plus :: param where
  "demo_const_plus = PObj 1 (Conc (PyFunc ''_operator'' ''add'')) [demo_const, Conc (PyInt 3)] []"

definition demo_const_plus_state :: state where
  "demo_const_plus_state = demo_state\<lparr>next_addr := 2\<rparr>"

definition demo_rsum :: param where
  "demo_rsum = PObj 0 (Conc (PyFunc ''_operator'' ''add'')) [Conc (PyInt 3), Var ''x'' 0] []"

definition demo_amplitude :: param where
  "demo_amplitude = PObj 1 (Conc builtin_getattr) [demo_pulse, Conc (PyStr ''amplitude'')] []"

definition demo_amplitude_state :: state where
  "demo_amplitude_state =
     demo_pulse_state\<lparr>node_vars := (node_vars demo_pulse_state)(1 := [(''x'', 0), (''y'', 1)]),
                      next_addr := 2\<rparr>"

definition demo_const_amplitude :: param where
  "demo_const_amplitude = PObj 1 (Conc builtin_getattr) [demo_const, Conc (PyStr ''amplitude'')] []"


section \<open>Properties of build\<close>

lemma build_PObj:
  "build rt (PObj a cls args kwargs) s =
     (if \<not> dict_eq (snapshot s a) (vars_state s a)
      then evaluate rt a cls args kwargs (s\<lparr>vars_state := (vars_state s)(a := snapshot s a)\<rparr>)
      else (Inr (instance_of s a), s))"
  by (simp add: evaluate_def bind_result_def build_cls_def invoke_def snapshot_def Let_def
           split: prod.splits sum.splits param.splits)

declare build.simps(3) [simp del]

lemma build_args_Cons:
  "build_args rt (x # xs) = bind_result (build rt x) (\<lambda>v. bind_result (build_args rt xs) (\<lambda>vs. ret (v # vs)))"
  by (rule ext) (simp add: bind_result_def ret_def split: prod.splits sum.splits)

lemma build_kwargs_Cons:
  "build_kwargs rt ((k, x) # xs) = bind_result (build rt x) (\<lambda>v. bind_result (build_kwargs rt xs) (\<lambda>vs. ret ((k, v) # vs)))"
  by (rule ext) (simp add: bind_result_def ret_def split: prod.splits sum.splits)

lemma build_PObj_miss:
  "\<not> dict_eq (snapshot s a) (vars_state s a) \<Longrightarrow>
   build rt (PObj a cls args kwargs) s =
     bind_result (record_snapshot a) (\<lambda>_. evaluate rt a cls args kwargs) s"
  by (simp add: build_PObj bind_result_def record_snapshot_def)

lemma build_PObj_hit:
  "dict_eq (snapshot s a) (vars_state s a) \<Longrightarrow>
   build rt (PObj a cls args kwargs) s = (Inr (instance_of s a), s)"
  by (simp add: build_PObj)

lemma effect_ret: "effect rt A (ret v) s"
  by (simp add: effect_def ret_def)

lemma effect_mono: "effect rt A m s \<Longrightarrow> A \<subseteq> B \<Longrightarrow> effect rt B m s"
  unfolding effect_def by (cases "m s") auto

lemma effect_bind:
  assumes "effect rt A m s"
    and "\<And>v s1. m s = (Inr v, s1) \<Longrightarrow> effect rt A (f v) s1"
  shows "effect rt A (bind_result m f) s"
proof (cases "m s")
  case (Pair r s1)
  show ?thesis
  proof (cases r)
    case (Inl e)
    with Pair assms(1) show ?thesis by (simp add: effect_def bind_result_def)
  next
    case (Inr v)
    obtain r2 s2 where f: "f v s1 = (r2, s2)" by fastforce
    from assms(2)[of v s1] Pair Inr have e2: "effect rt A (f v) s1" by simp
    from assms(1) Pair Inr obtain cs where cs: "calls s1 = calls s @ cs"
      by (auto simp: effect_def)
    have b: "bind_result m f s = (r2, s2)" using Pair Inr f by (simp add: bind_result_def)
    show ?thesis
      using assms(1) e2 unfolding effect_def b Pair f
      by (auto simp: cs)
  qed
qed

lemma effect_invoke: "a \<in> A \<Longrightarrow> effect rt A (invoke rt a obj xs kw) s"
  by (cases "rt_call rt obj xs kw") (auto simp: effect_def invoke_def)

lemma effect_record_snapshot: "a \<in> A \<Longrightarrow> effect rt A (record_snapshot a) s"
  by (auto simp: effect_def record_snapshot_def)

lemma effect_build_cls:
  assumes "\<And>b c xs kws. cls = PObj b c xs kws \<Longrightarrow> effect rt (addrs cls) (build rt cls) s"
  shows "effect rt (addrs cls) (build_cls rt cls) s"
proof (cases cls)
  case (Conc f)
  then show ?thesis by (simp add: effect_def build_cls_def)
next
  case (Var k v)
  then show ?thesis by (simp add: effect_def build_cls_def)
next
  case (PObj b c xs kws)
  have "build_cls rt cls s = build rt cls s" using PObj by (simp add: build_cls_def)
  then show ?thesis using assms[OF PObj] by (simp add: effect_def)
qed

lemma build_effect:
  "effect rt (addrs p) (build rt p) s"
  "effect rt (\<Union>x \<in> set xs. addrs x) (build_args rt xs) s"
  "effect rt (\<Union>x \<in> set (map snd kws). addrs x) (build_kwargs rt kws) s"
proof (induction rt p s and rt xs s and rt kws s rule: build_build_args_build_kwargs.induct)
  case (1 rt v s)
  show ?case by (simp add: effect_def)
next
  case (2 rt k a s)
  show ?case by (simp add: effect_def)
next
  case (3 rt a cls args kwargs s)
  let ?A = "addrs (PObj a cls args kwargs)"
  show ?case
  proof (cases "dict_eq (snapshot s a) (vars_state s a)")
    case True
    then show ?thesis by (simp add: effect_def build_PObj_hit)
  next
    case False
    let ?s1 = "s\<lparr>vars_state := (vars_state s)(a := snapshot s a)\<rparr>"
    have miss: "\<not> dict_eq (map (\<lambda>(key, var). (key, var_count s var)) (node_vars s a)) (vars_state s a)"
      using False by (simp add: snapshot_def)
    have s1: "s\<lparr>vars_state := (vars_state s)(a := map (\<lambda>(key, var). (key, var_count s var)) (node_vars s a))\<rparr> = ?s1"
      by (simp add: snapshot_def)
    have ev: "effect rt ?A (evaluate rt a cls args kwargs) ?s1"
      unfolding evaluate_def
    proof (rule effect_bind)
      show "effect rt ?A (build_args rt args) ?s1"
        using "3.IH"(1)[OF refl miss] unfolding s1
        by (rule effect_mono) auto
    next
      fix args' s2
      assume a2: "build_args rt args ?s1 = (Inr args', s2)"
      have a2u: "build_args rt args (s\<lparr>vars_state := (vars_state s)(a := map (\<lambda>(key, var). (key, var_count s var)) (node_vars s a))\<rparr>) = (Inr args', s2)"
        using a2 by (simp add: snapshot_def)
      show "effect rt ?A
              (bind_result (build_kwargs rt kwargs) (\<lambda>kwargs'. bind_result (build_cls rt cls) (\<lambda>obj. invoke rt a obj args' kwargs'))) s2"
      proof (rule effect_bind)
        show "effect rt ?A (build_kwargs rt kwargs) s2"
          using "3.IH"(2)[OF refl miss a2u[symmetric] refl]
          by (rule effect_mono) auto
      next
        fix kwargs' s3
        assume a3: "build_kwargs rt kwargs s2 = (Inr kwargs', s3)"
        show "effect rt ?A (bind_result (build_cls rt cls) (\<lambda>obj. invoke rt a obj args' kwargs')) s3"
        proof (rule effect_bind)
          have "effect rt (addrs cls) (build_cls rt cls) s3"
          proof (rule effect_build_cls)
            fix b c xs kws
            assume "cls = PObj b c xs kws"
            then show "effect rt (addrs cls) (build rt cls) s3"
              using "3.IH"(3)[OF refl miss a2u[symmetric] refl a3[symmetric] refl] by simp
          qed
          then show "effect rt ?A (build_cls rt cls) s3"
            by (rule effect_mono) auto
        next
          fix obj s4
          show "effect rt ?A (invoke rt a obj args' kwargs') s4"
            by (rule effect_invoke) simp
        qed
      qed
    qed
    have "effect rt ?A (bind_result (record_snapshot a) (\<lambda>_. evaluate rt a cls args kwargs)) s"
    proof (rule effect_bind)
      show "effect rt ?A (record_snapshot a) s"
        by (rule effect_record_snapshot) simp
    next
      fix v s1
      assume "record_snapshot a s = (Inr v, s1)"
      then have "s1 = ?s1" by (simp add: record_snapshot_def)
      then show "effect rt ?A (evaluate rt a cls args kwargs) s1" using ev by simp
    qed
    moreover have "build rt (PObj a cls args kwargs) s =
        bind_result (record_snapshot a) (\<lambda>_. evaluate rt a cls args kwargs) s"
      by (rule build_PObj_miss[OF False])
    ultimately show ?thesis by (simp add: effect_def)
  qed
next
  case (4 rt s)
  show ?case by (simp add: effect_def)
next
  case (5 rt x xs s)
  let ?A = "\<Union>x \<in> set (x # xs). addrs x"
  show ?case unfolding build_args_Cons
  proof (rule effect_bind)
    show "effect rt ?A (build rt x) s"
      using "5.IH"(1) by (rule effect_mono) auto
  next
    fix v s1
    assume a1: "build rt x s = (Inr v, s1)"
    show "effect rt ?A (bind_result (build_args rt xs) (\<lambda>vs. ret (v # vs))) s1"
    proof (rule effect_bind)
      show "effect rt ?A (build_args rt xs) s1"
        using "5.IH"(2)[OF a1[symmetric] refl] by (rule effect_mono) auto
    qed (rule effect_ret)
  qed
next
  case (6 rt s)
  show ?case by (simp add: effect_def)
next
  case (7 rt k x xs s)
  let ?A = "\<Union>x \<in> set (map snd ((k, x) # xs)). addrs x"
  show ?case unfolding build_kwargs_Cons
  proof (rule effect_bind)
    show "effect rt ?A (build rt x) s"
      using "7.IH"(1) by (rule effect_mono) auto
  next
    fix v s1
    assume a1: "build rt x s = (Inr v, s1)"
    show "effect rt ?A (bind_result (build_kwargs rt xs) (\<lambda>vs. ret ((k, v) # vs))) s1"
    proof (rule effect_bind)
      show "effect rt ?A (build_kwargs rt xs) s1"
        using "7.IH"(2)[OF a1[symmetric] refl] by (rule effect_mono) auto
    qed (rule effect_ret)
  qed
qed

lemma evaluate_operands:
  "evaluate rt a cls args kwargs s =
     (case operands rt cls args kwargs s of
        (Inl e, t) \<Rightarrow> (Inl e, t)
      | (Inr (obj, args', kwargs'), t) \<Rightarrow> invoke rt a obj args' kwargs' t)"
  by (simp add: evaluate_def operands_def bind_result_def ret_def split: prod.splits sum.splits)

lemma effect_operands:
  "effect rt (child_addrs cls args kwargs) (operands rt cls args kwargs) s"
  unfolding operands_def
proof (intro effect_bind effect_ret)
  show "effect rt (child_addrs cls args kwargs) (build_args rt args) s"
    by (rule effect_mono[OF build_effect(2)]) (auto simp: child_addrs_def)
next
  fix s2
  show "effect rt (child_addrs cls args kwargs) (build_kwargs rt kwargs) s2"
    by (rule effect_mono[OF build_effect(3)]) (auto simp: child_addrs_def)
next
  fix s3
  have "effect rt (addrs cls) (build_cls rt cls) s3"
    by (rule effect_build_cls) (rule build_effect(1))
  then show "effect rt (child_addrs cls args kwargs) (build_cls rt cls) s3"
    by (rule effect_mono) (auto simp: child_addrs_def)
qed

text \<open>What a miss does, seen from outside.\<close>

lemma evaluate_result:
  assumes ev: "evaluate rt a cls args kwargs s = (res, t)"
    and acyc: "a \<notin> child_addrs cls args kwargs"
  shows "vars_state t a = vars_state s a \<and> node_vars t = node_vars s \<and> var_count t = var_count s \<and>
         (\<exists>cs obj xs kw. calls t = calls s @ cs @ [(obj, xs, kw)] \<and>
            (case res of
               Inl e \<Rightarrow> rt_call rt obj xs kw = Inl e \<and> instance_of t a = instance_of s a
             | Inr r \<Rightarrow> rt_call rt obj xs kw = Inr r \<and> instance_of t a = r \<and>
                        fst (operands rt cls args kwargs s) = Inr (obj, xs, kw)))"
proof -
  obtain r1 s1 where op: "operands rt cls args kwargs s = (r1, s1)" by fastforce
  have eff: "effect rt (child_addrs cls args kwargs) (operands rt cls args kwargs) s"
    by (rule effect_operands)
  from eff op acyc have keep: "vars_state s1 a = vars_state s a" "instance_of s1 a = instance_of s a"
    "node_vars s1 = node_vars s" "var_count s1 = var_count s"
    by (auto simp: effect_def)
  from eff op obtain cs where cs: "calls s1 = calls s @ cs" by (auto simp: effect_def)
  show ?thesis
  proof (cases r1)
    case (Inl e)
    then have rt: "res = Inl e" "t = s1" using ev op by (simp_all add: evaluate_operands)
    from eff op Inl obtain cs' obj xs kw where
      "calls s1 = calls s @ cs' @ [(obj, xs, kw)]" "rt_call rt obj xs kw = Inl e"
      by (auto simp: effect_def)
    then show ?thesis using rt keep by auto
  next
    case (Inr trip)
    obtain obj xs kw where trip: "trip = (obj, xs, kw)" by (cases trip) auto
    have inv: "invoke rt a obj xs kw s1 = (res, t)"
      using ev op Inr trip by (simp add: evaluate_operands)
    show ?thesis
    proof (cases "rt_call rt obj xs kw")
      case (Inl e)
      then have "res = Inl e" "t = s1\<lparr>calls := calls s1 @ [(obj, xs, kw)]\<rparr>"
        using inv by (simp_all add: invoke_def)
      then show ?thesis using keep cs Inl by simp
    next
      case (Inr r)
      then have "res = Inr r"
        "t = s1\<lparr>instance_of := (instance_of s1)(a := r), calls := calls s1 @ [(obj, xs, kw)]\<rparr>"
        using inv by (simp_all add: invoke_def)
      then show ?thesis using keep cs Inr op \<open>r1 = Inr trip\<close> trip by simp
    qed
  qed
qed

lemma build_result:
  assumes b: "build rt (PObj a cls args kwargs) s = (res, t)"
    and acyc: "a \<notin> child_addrs cls args kwargs"
  shows "vars_state t a = (if dict_eq (snapshot s a) (vars_state s a) then vars_state s a else snapshot s a)"
    and "node_vars t = node_vars s" and "var_count t = var_count s"
    and "dict_eq (snapshot t a) (vars_state t a)"
    and "res = Inr v \<Longrightarrow> instance_of t a = v"
proof -
  let ?s1 = "s\<lparr>vars_state := (vars_state s)(a := snapshot s a)\<rparr>"
  have all: "vars_state t a = (if dict_eq (snapshot s a) (vars_state s a) then vars_state s a else snapshot s a)
     \<and> node_vars t = node_vars s \<and> var_count t = var_count s \<and> (res = Inr v \<longrightarrow> instance_of t a = v)"
  proof (cases "dict_eq (snapshot s a) (vars_state s a)")
    case True
    then show ?thesis using b by (auto simp: build_PObj)
  next
    case False
    then have "evaluate rt a cls args kwargs ?s1 = (res, t)" using b by (simp add: build_PObj)
    from evaluate_result[OF this acyc] False show ?thesis by (cases res) auto
  qed
  then show "vars_state t a = (if dict_eq (snapshot s a) (vars_state s a) then vars_state s a else snapshot s a)"
    and "node_vars t = node_vars s" and "var_count t = var_count s"
    and "res = Inr v \<Longrightarrow> instance_of t a = v" by auto
  from all have "snapshot t a = snapshot s a" by (simp add: snapshot_def)
  with all show "dict_eq (snapshot t a) (vars_state t a)" by (auto simp: dict_eq_def)
qed

lemma dict_eq_snapshot:
  assumes "node_vars t a = node_vars s a"
  shows "dict_eq (snapshot t a) (snapshot s a) \<longleftrightarrow>
         (\<forall>k x. map_of (node_vars s a) k = Some x \<longrightarrow> var_count t x = var_count s x)"
proof -
  have m: "\<And>u. map_of (snapshot u a) = map_option (var_count u) \<circ> map_of (node_vars u a)"
    by (simp add: snapshot_def map_of_map)
  show ?thesis
  proof
    assume "dict_eq (snapshot t a) (snapshot s a)"
    then have eq: "\<And>k. map_option (var_count t) (map_of (node_vars s a) k) = map_option (var_count s) (map_of (node_vars s a) k)"
      using assms by (simp add: dict_eq_def m fun_eq_iff)
    show "\<forall>k x. map_of (node_vars s a) k = Some x \<longrightarrow> var_count t x = var_count s x"
    proof (intro allI impI)
      fix k x assume "map_of (node_vars s a) k = Some x"
      with eq[of k] show "var_count t x = var_count s x" by simp
    qed
  next
    assume h: "\<forall>k x. map_of (node_vars s a) k = Some x \<longrightarrow> var_count t x = var_count s x"
    have "\<And>k. map_option (var_count t) (map_of (node_vars s a) k) = map_option (var_count s) (map_of (node_vars s a) k)"
    proof -
      fix k show "map_option (var_count t) (map_of (node_vars s a) k) = map_option (var_count s) (map_of (node_vars s a) k)"
        using h by (cases "map_of (node_vars s a) k") auto
    qed
    then show "dict_eq (snapshot t a) (snapshot s a)"
      using assms by (simp add: dict_eq_def m fun_eq_iff)
  qed
qed

lemma dict_eq_Nil [simp]: "dict_eq [] ys \<longleftrightarrow> ys = []" "dict_eq xs [] \<longleftrightarrow> xs = []"
  by (simp_all add: dict_eq_def)

lemma dict_eq_iff [code]:
  "dict_eq xs ys \<longleftrightarrow> list_all (\<lambda>k. map_of xs k = map_of ys k) (map fst xs @ map fst ys)"
proof
  assume "dict_eq xs ys"
  then show "list_all (\<lambda>k. map_of xs k = map_of ys k) (map fst xs @ map fst ys)"
    by (simp add: dict_eq_def list_all_iff)
next
  assume h: "list_all (\<lambda>k. map_of xs k = map_of ys k) (map fst xs @ map fst ys)"
  have "map_of xs k = map_of ys k" for k
  proof (cases "k \<in> fst ` set xs \<union> fst ` set ys")
    case True
    then show ?thesis using h by (auto simp: list_all_iff)
  next
    case False
    then have "map_of xs k = None" "map_of ys k = None" by (simp_all add: map_of_eq_None_iff)
    then show ?thesis by simp
  qed
  then show "dict_eq xs ys" by (auto simp: dict_eq_def)
qed

lemmas demo_defs =
  demo_sum_def demo_sum_state_def demo_sum_built_def demo_sum_bumped_def demo_state_def
  demo_rt_def demo_call_def

lemma demo_sum_first:
  "build demo_rt demo_sum demo_sum_state = (Inr (PyInt 8), demo_sum_built)"
  by (simp add: build.simps demo_defs Let_def)

subsection \<open>Construction\<close>

lemma fold_no_variables:
  "\<forall>x \<in> set xs. \<not> is_Parametrized x \<Longrightarrow>
   fold (\<lambda>x d. if is_Parametrized x then dict_update d (variables s x) else d) xs d = d"
  by (induction xs arbitrary: d) simp_all

lemma ParamObj_fst: "fst (ParamObj cls args kwargs s) = PObj (next_addr s) cls args kwargs"
  by (simp add: ParamObj_def Let_def)

lemma ParamObj_fresh:
  "instance_of (snd (ParamObj cls args kwargs s)) (next_addr s) = PyNone"
  "vars_state (snd (ParamObj cls args kwargs s)) (next_addr s) = []"
  by (simp_all add: ParamObj_def Let_def)

subsection \<open>The variables mapping and what leaves it alone\<close>

lemma map_of_dict_update:
  "distinct (map fst other) \<Longrightarrow> map_of (dict_update d other) = map_of d ++ map_of other"
proof (induction other arbitrary: d)
  case Nil
  then show ?case by (simp add: dict_update_def)
next
  case (Cons kv other)
  obtain k v where kv: "kv = (k, v)" by (cases kv)
  from Cons.prems kv have fresh: "k \<notin> fst ` set other" and d: "distinct (map fst other)" by auto
  have "map_of (dict_update d (kv # other)) = map_of (dict_update (AList.update k v d) other)"
    by (simp add: dict_update_def kv)
  also have "\<dots> = (map_of d)(k \<mapsto> v) ++ map_of other"
    using Cons.IH[OF d, of "AList.update k v d"] by (simp only: update_conv')
  also have "\<dots> = map_of d ++ map_of (kv # other)"
  proof (rule ext)
    fix x
    show "((map_of d)(k \<mapsto> v) ++ map_of other) x = (map_of d ++ map_of (kv # other)) x"
    proof (cases "x = k")
      case True
      then have "map_of other x = None" using fresh by (simp add: map_of_eq_None_iff)
      then show ?thesis using True by (simp add: map_add_def kv)
    next
      case False
      then show ?thesis by (simp add: map_add_def kv split: option.splits)
    qed
  qed
  finally show ?case .
qed

lemma distinct_dict_update: "distinct (map fst d) \<Longrightarrow> distinct (map fst (dict_update d other))"
  unfolding dict_update_def
  by (induction other arbitrary: d) (auto simp: distinct_update)

lemma merge_variables:
  assumes "\<forall>x \<in> set xs. distinct (map fst (variables s x))"
  shows "map_of (fold (\<lambda>x d. if is_Parametrized x then dict_update d (variables s x) else d) xs d) =
         foldl (++) (map_of d) (map (contribution s) xs)"
  using assms
proof (induction xs arbitrary: d)
  case Nil
  then show ?case by simp
next
  case (Cons x xs)
  then show ?case by (simp add: contribution_def map_of_dict_update)
qed

lemma distinct_merge_variables:
  "distinct (map fst d) \<Longrightarrow>
   distinct (map fst (fold (\<lambda>x d. if is_Parametrized x then dict_update d (variables s x) else d) xs d))"
  by (induction xs arbitrary: d) (simp_all add: distinct_dict_update)

lemma dom_foldl_map_add: "dom (foldl (++) m ms) = dom m \<union> (\<Union>n \<in> set ms. dom n)"
  by (induction ms arbitrary: m) auto

lemma foldl_map_add_source:
  "foldl (++) m ms k = Some v \<Longrightarrow> m k = Some v \<or> (\<exists>n \<in> set ms. n k = Some v)"
  by (induction ms arbitrary: m) (fastforce simp: map_add_Some_iff)+

lemma ParamObj_node_vars:
  assumes "\<forall>x \<in> set (cls # args @ map snd kwargs). distinct (map fst (variables s x))"
  shows "map_of (node_vars (snd (ParamObj cls args kwargs s)) (next_addr s)) =
         foldl (++) Map.empty (map (contribution s) (cls # args @ map snd kwargs))"
proof -
  let ?v0 = "if is_Parametrized cls then dict_update [] (variables s cls) else []"
  have v0: "map_of ?v0 = Map.empty ++ contribution s cls"
    using assms by (simp add: contribution_def map_of_dict_update)
  have rest: "\<forall>x \<in> set (args @ map snd kwargs). distinct (map fst (variables s x))"
    using assms by simp
  have "node_vars (snd (ParamObj cls args kwargs s)) (next_addr s) =
        fold (\<lambda>x d. if is_Parametrized x then dict_update d (variables s x) else d) (args @ map snd kwargs) ?v0"
    by (simp add: ParamObj_def Let_def)
  then show ?thesis
    using merge_variables[OF rest, of ?v0] v0 by simp
qed

lemma ParamObj_distinct:
  "distinct (map fst (node_vars (snd (ParamObj cls args kwargs s)) (next_addr s)))"
proof -
  let ?v0 = "if is_Parametrized cls then dict_update [] (variables s cls) else []"
  have "distinct (map fst ?v0)" by (simp add: distinct_dict_update)
  then show ?thesis
    using distinct_merge_variables[of ?v0 s "args @ map snd kwargs"]
    by (simp add: ParamObj_def Let_def)
qed


lemma OpSupport_methods_eq:
  "OpSupport_methods =
     [(''__add__'', do_op ''__add__''), (''__radd__'', do_rop ''__add__''),
      (''__sub__'', do_op ''__sub__''), (''__rsub__'', do_rop ''__sub__''),
      (''__mul__'', do_op ''__mul__''), (''__rmul__'', do_rop ''__mul__''),
      (''__truediv__'', do_op ''__truediv__''), (''__rtruediv__'', do_rop ''__truediv__''),
      (''__floordiv__'', do_op ''__floordiv__''), (''__rfloordiv__'', do_rop ''__floordiv__''),
      (''__pow__'', do_op ''__pow__''), (''__rpow__'', do_rop ''__pow__''),
      (''__mod__'', do_op ''__mod__''), (''__rmod__'', do_rop ''__mod__'')]"
  by (simp add: OpSupport_methods_def reversible_ops_def rmethod_def)

lemma forward_lookup:
  "\<forall>m \<in> set reversible_ops. map_of OpSupport_methods m = Some (do_op m)"
  by (simp add: OpSupport_methods_eq reversible_ops_def)

lemma reflected_lookup:
  "\<forall>m \<in> set reversible_ops. map_of OpSupport_methods (rmethod m) = Some (do_rop m)"
  by (simp add: OpSupport_methods_eq reversible_ops_def rmethod_def)

lemma magic_forward: "m \<in> set reversible_ops \<Longrightarrow> magic m self other s = do_op m self other s"
  using forward_lookup by (simp add: magic_def)

lemma magic_reflected: "m \<in> set reversible_ops \<Longrightarrow> magic (rmethod m) self other s = do_rop m self other s"
  using reflected_lookup by (simp add: magic_def)

lemma table_entries:
  "(k, f) \<in> set OpSupport_methods \<Longrightarrow> \<exists>m. f = do_op m \<or> f = do_rop m"
  unfolding OpSupport_methods_eq by (simp only: set_simps insert_iff empty_iff prod.inject) blast

lemma magic_cases:
  "(\<exists>m. magic name self other s = do_op m self other s) \<or>
   (\<exists>m. magic name self other s = do_rop m self other s) \<or>
   magic name self other s = (Inl (AttributeError name), s)"
proof (cases "map_of OpSupport_methods name")
  case None
  then show ?thesis by (simp add: magic_def)
next
  case (Some f)
  then have "(name, f) \<in> set OpSupport_methods" by (rule map_of_SomeD)
  then obtain m where "f = do_op m \<or> f = do_rop m" using table_entries by blast
  then show ?thesis using Some by (auto simp: magic_def)
qed

lemma allocates_only_refl: "allocates_only s s"
  by (simp add: allocates_only_def)

lemma ParamObj_allocates: "allocates_only s (snd (ParamObj cls args kwargs s))"
  by (simp add: allocates_only_def ParamObj_def Let_def)

lemma call_method_allocates: "allocates_only s (snd (call_method rt p xs kws s))"
proof (cases "binds_twice kws")
  case True
  then show ?thesis by (simp add: call_method_def allocates_only_refl)
next
  case False
  then show ?thesis
    using ParamObj_allocates[of s p xs kws]
    by (auto simp: call_method_def allocates_only_def split: prod.splits sum.splits)
qed

lemma getattr_method_allocates: "allocates_only s (snd (getattr_method rt p name s))"
proof (cases p)
  case (PObj a cls args kwargs)
  show ?thesis
    using ParamObj_allocates[of s "Conc builtin_getattr" "[p, Conc (PyStr name)]" "[]"]
    by (auto simp: PObj allocates_only_def split: prod.splits sum.splits)
qed (simp_all add: allocates_only_def)

lemma do_op_Some:
  "map_of operator_table m = Some f \<Longrightarrow>
   do_op m p q s = (Inr (fst (ParamObj (Conc f) [p, q] [] s)), snd (ParamObj (Conc f) [p, q] [] s))"
  by (simp add: do_op_def split: prod.splits)

lemma do_rop_Some:
  "map_of operator_table m = Some f \<Longrightarrow>
   do_rop m p q s = (Inr (fst (ParamObj (Conc f) [q, p] [] s)), snd (ParamObj (Conc f) [q, p] [] s))"
  by (simp add: do_rop_def split: prod.splits)

lemma do_op_allocates: "allocates_only s (snd (do_op m p q s))"
proof (cases "map_of operator_table m")
  case None
  then show ?thesis by (simp add: do_op_def allocates_only_refl)
next
  case (Some f)
  then show ?thesis by (simp add: do_op_Some ParamObj_allocates)
qed

lemma do_rop_allocates: "allocates_only s (snd (do_rop m p q s))"
proof (cases "map_of operator_table m")
  case None
  then show ?thesis by (simp add: do_rop_def allocates_only_refl)
next
  case (Some f)
  then show ?thesis by (simp add: do_rop_Some ParamObj_allocates)
qed

lemma magic_allocates: "allocates_only s (snd (magic name p q s))"
  using magic_cases[of name p q s] do_op_allocates[of s _ p q] do_rop_allocates[of s _ p q]
  by (auto simp: allocates_only_refl)

lemma neg_allocates: "allocates_only s (snd (OpSupport_neg p s))"
  by (simp add: OpSupport_neg_def ParamObj_allocates)

lemma abs_allocates: "allocates_only s (snd (OpSupport_abs p s))"
  by (simp add: OpSupport_abs_def ParamObj_allocates)

lemma to_dict_state: "snd (to_dict rt p s) = s"
proof (induction rt p s rule: to_dict.induct)
  case (3 rt a cls args kwargs s)
  show ?case
  proof (cases cls)
    case (Conc f)
    then show ?thesis by (simp split: option.splits)
  next
    case (Var k v)
    then show ?thesis by simp
  next
    case (PObj b c xs kws)
    obtain r t where rt: "to_dict rt cls s = (r, t)" by fastforce
    with "3.IH"(2)[OF PObj] have "t = s" by simp
    then show ?thesis using PObj rt by (cases r) simp_all
  qed
qed simp_all

lemma build_node_vars: "node_vars (snd (build rt p s)) = node_vars s"
  using build_effect(1)[of rt p s] by (auto simp: effect_def split: prod.splits)

subsection \<open>Serialization and rendering\<close>

lemma to_dict_symbolic:
  "is_Parametrized cls \<Longrightarrow>
   to_dict rt (PObj a cls args kwargs) s =
     (case to_dict rt cls s of
        (Inl e, s1) \<Rightarrow> (Inl e, s1)
      | (Inr d, s1) \<Rightarrow>
          (Inr (Obj_to_dict (PObj a cls args kwargs)
                  (Described d # map Operand args)
                  (map (\<lambda>(k, v). (k, Operand v)) kwargs)), s1))"
proof (cases cls)
  case (PObj b c xs kws)
  show ?thesis
    unfolding PObj
    by (simp only: to_dict.simps(3)[of rt a "PObj b c xs kws" args kwargs s] param.case)
qed simp_all

lemma str_named:
  "named rt p \<Longrightarrow> str rt p = Inr (spec_render rt p)"
  "(\<forall>x \<in> set xs. named rt x) \<Longrightarrow> str_args rt xs = Inr (map (spec_render rt) xs)"
  "(\<forall>(k, x) \<in> set kws. named rt x) \<Longrightarrow>
     str_kwargs rt kws = Inr (map (\<lambda>(k, x). k @ ''='' @ spec_render rt x) kws)"
proof (induction rt p and rt xs and rt kws rule: str_str_args_str_kwargs.induct)
  case (3 rt a cls args kwargs)
  from "3.prems" have a: "str_args rt args = Inr (map (spec_render rt) args)"
    using "3.IH"(1) by simp
  from "3.prems" have k: "str_kwargs rt kwargs = Inr (map (\<lambda>(k, x). k @ ''='' @ spec_render rt x) kwargs)"
    using "3.IH"(2)[OF a] by simp
  show ?case
  proof (cases cls)
    case (Conc f)
    then show ?thesis using "3.prems" a k by auto
  next
    case (Var k' v)
    then show ?thesis using a k by simp
  next
    case (PObj b c xs kws)
    then have "named rt cls" using "3.prems" by simp
    then have "str rt cls = Inr (spec_render rt cls)"
      using "3.IH"(4)[OF a k PObj] by simp
    then show ?thesis using a k PObj by simp
  qed
qed auto

lemma str_error:
  "str rt p = Inl e \<Longrightarrow> e = AttributeError ''__name__''"
  "str_args rt xs = Inl e \<Longrightarrow> e = AttributeError ''__name__''"
  "str_kwargs rt kws = Inl e \<Longrightarrow> e = AttributeError ''__name__''"
proof (induction rt p and rt xs and rt kws arbitrary: e and e and e rule: str_str_args_str_kwargs.induct)
  case (3 rt a cls args kwargs)
  show ?case
  proof (cases "str_args rt args")
    case (Inl e1)
    then show ?thesis using "3.prems" "3.IH"(1) by simp
  next
    case a: (Inr args')
    show ?thesis
    proof (cases "str_kwargs rt kwargs")
      case (Inl e2)
      then show ?thesis using "3.prems" a "3.IH"(2)[OF a] by simp
    next
      case k: (Inr kwargs')
      show ?thesis
      proof (cases cls)
        case (Conc f)
        then show ?thesis using "3.prems" a k by (auto split: option.splits)
      next
        case (Var k' v)
        then show ?thesis using "3.prems" a k by simp
      next
        case (PObj b c xs kws)
        then show ?thesis using "3.prems" a k "3.IH"(4)[OF a k PObj] by (auto split: sum.splits)
      qed
    qed
  qed
qed (auto split: sum.splits)

lemma str_fails:
  "\<not> named rt p \<Longrightarrow> str rt p = Inl (AttributeError ''__name__'')"
  "\<not> (\<forall>x \<in> set xs. named rt x) \<Longrightarrow> str_args rt xs = Inl (AttributeError ''__name__'')"
  "\<not> (\<forall>(k, x) \<in> set kws. named rt x) \<Longrightarrow> str_kwargs rt kws = Inl (AttributeError ''__name__'')"
proof -
  have total: "(\<exists>r. str rt p = Inr r) \<longrightarrow> named rt p"
    "(\<exists>rs. str_args rt xs = Inr rs) \<longrightarrow> (\<forall>x \<in> set xs. named rt x)"
    "(\<exists>rs. str_kwargs rt kws = Inr rs) \<longrightarrow> (\<forall>(k, x) \<in> set kws. named rt x)"
  proof (induction rt p and rt xs and rt kws rule: str_str_args_str_kwargs.induct)
    case (3 rt a cls args kwargs)
    show ?case
    proof
      assume "\<exists>r. str rt (PObj a cls args kwargs) = Inr r"
      then obtain r where r: "str rt (PObj a cls args kwargs) = Inr r" by blast
      then obtain args' where a: "str_args rt args = Inr args'"
        by (cases "str_args rt args") simp_all
      from r a obtain kwargs' where k: "str_kwargs rt kwargs = Inr kwargs'"
        by (cases "str_kwargs rt kwargs") simp_all
      have na: "\<forall>x \<in> set args. named rt x" using "3.IH"(1) a by blast
      have nk: "\<forall>(k, x) \<in> set kwargs. named rt x" using "3.IH"(2)[OF a] k by blast
      show "named rt (PObj a cls args kwargs)"
      proof (cases cls)
        case (Conc f)
        then show ?thesis using r a k na nk by (auto split: option.splits)
      next
        case (Var k' v)
        then show ?thesis using na nk by simp
      next
        case (PObj b c xs kws)
        then have "\<exists>r'. str rt cls = Inr r'" using r a k by (cases "str rt cls") simp_all
        then have "named rt cls" using "3.IH"(4)[OF a k PObj] by blast
        then show ?thesis using na nk PObj by simp
      qed
    qed
  qed (auto split: sum.splits)
  show "\<not> named rt p \<Longrightarrow> str rt p = Inl (AttributeError ''__name__'')"
    using total(1) str_error(1)[of rt p] by (cases "str rt p") auto
  show "\<not> (\<forall>x \<in> set xs. named rt x) \<Longrightarrow> str_args rt xs = Inl (AttributeError ''__name__'')"
    using total(2) str_error(2)[of rt xs] by (cases "str_args rt xs") auto
  show "\<not> (\<forall>(k, x) \<in> set kws. named rt x) \<Longrightarrow> str_kwargs rt kws = Inl (AttributeError ''__name__'')"
    using total(3) str_error(3)[of rt kws] by (cases "str_kwargs rt kws") auto
qed

subsection \<open>A build does not depend on the snapshot of a node it does not reach\<close>

lemma commutes_ret: "commutes a x (ret v) s"
  by (simp add: commutes_def ret_def)

lemma commutes_bind:
  assumes "commutes a x m s"
    and "\<And>v s1. m s = (Inr v, s1) \<Longrightarrow> commutes a x (f v) s1"
  shows "commutes a x (bind_result m f) s"
proof (cases "m s")
  case (Pair r s1)
  then have p: "m (poke a x s) = (r, poke a x s1)" using assms(1) by (simp add: commutes_def)
  show ?thesis
  proof (cases r)
    case (Inl e)
    then show ?thesis using Pair p by (simp add: commutes_def bind_result_def)
  next
    case (Inr v)
    then have "commutes a x (f v) s1" using assms(2) Pair by simp
    then show ?thesis using Pair p Inr by (simp add: commutes_def bind_result_def)
  qed
qed

lemma commutes_invoke: "commutes a x (invoke rt b obj xs kw) s"
  by (cases "rt_call rt obj xs kw") (simp_all add: commutes_def invoke_def poke_def)

lemma snapshot_poke: "snapshot (poke a x s) b = snapshot s b"
  by (simp add: snapshot_def poke_def)

lemma commutes_record_snapshot: "b \<noteq> a \<Longrightarrow> commutes a x (record_snapshot b) s"
  by (simp add: commutes_def record_snapshot_def snapshot_poke) (simp add: poke_def fun_upd_twist)

lemma commutes_build_cls:
  assumes "\<And>b c xs kws. cls = PObj b c xs kws \<Longrightarrow> commutes a x (build rt cls) s"
  shows "commutes a x (build_cls rt cls) s"
proof (cases cls)
  case (PObj b c xs kws)
  have "build_cls rt cls = build rt cls" using PObj by (simp add: build_cls_def fun_eq_iff)
  then show ?thesis using assms[OF PObj] by simp
qed (simp_all add: commutes_def build_cls_def)

lemma build_commutes:
  "a \<notin> addrs p \<Longrightarrow> commutes a x (build rt p) s"
  "a \<notin> (\<Union>y \<in> set xs. addrs y) \<Longrightarrow> commutes a x (build_args rt xs) s"
  "a \<notin> (\<Union>y \<in> set (map snd kws). addrs y) \<Longrightarrow> commutes a x (build_kwargs rt kws) s"
proof (induction rt p s and rt xs s and rt kws s rule: build_build_args_build_kwargs.induct)
  case (1 rt v s)
  show ?case by (simp add: commutes_def)
next
  case (2 rt k b s)
  show ?case by (simp add: commutes_def poke_def)
next
  case (3 rt b cls args kwargs s)
  from "3.prems" have ne: "b \<noteq> a" and na: "a \<notin> (\<Union>y \<in> set args. addrs y)"
    and nk: "a \<notin> (\<Union>y \<in> set (map snd kwargs). addrs y)" and nc: "a \<notin> addrs cls"
    by auto
  have test: "dict_eq (snapshot (poke a x s) b) (vars_state (poke a x s) b) =
              dict_eq (snapshot s b) (vars_state s b)"
    using ne by (simp add: snapshot_poke) (simp add: poke_def)
  show ?case
  proof (cases "dict_eq (snapshot s b) (vars_state s b)")
    case True
    then show ?thesis using test ne
      by (simp add: commutes_def build_PObj_hit) (simp add: poke_def)
  next
    case False
    let ?s1 = "s\<lparr>vars_state := (vars_state s)(b := snapshot s b)\<rparr>"
    have miss: "\<not> dict_eq (map (\<lambda>(key, var). (key, var_count s var)) (node_vars s b)) (vars_state s b)"
      using False by (simp add: snapshot_def)
    have ev: "commutes a x (evaluate rt b cls args kwargs) ?s1"
      unfolding evaluate_def
    proof (rule commutes_bind)
      show "commutes a x (build_args rt args) ?s1"
        using "3.IH"(1)[OF refl miss na] by (simp add: snapshot_def)
    next
      fix args' s2
      assume a2: "build_args rt args ?s1 = (Inr args', s2)"
      have a2u: "build_args rt args (s\<lparr>vars_state := (vars_state s)(b := map (\<lambda>(key, var). (key, var_count s var)) (node_vars s b))\<rparr>) = (Inr args', s2)"
        using a2 by (simp add: snapshot_def)
      show "commutes a x
              (bind_result (build_kwargs rt kwargs) (\<lambda>kwargs'. bind_result (build_cls rt cls) (\<lambda>obj. invoke rt b obj args' kwargs'))) s2"
      proof (rule commutes_bind)
        show "commutes a x (build_kwargs rt kwargs) s2"
          using "3.IH"(2)[OF refl miss a2u[symmetric] refl nk] .
      next
        fix kwargs' s3
        assume a3: "build_kwargs rt kwargs s2 = (Inr kwargs', s3)"
        show "commutes a x (bind_result (build_cls rt cls) (\<lambda>obj. invoke rt b obj args' kwargs')) s3"
        proof (rule commutes_bind)
          show "commutes a x (build_cls rt cls) s3"
          proof (rule commutes_build_cls)
            fix b' c xs kws
            assume "cls = PObj b' c xs kws"
            then show "commutes a x (build rt cls) s3"
              using "3.IH"(3)[OF refl miss a2u[symmetric] refl a3[symmetric] refl _ nc] by simp
          qed
        next
          fix obj s4
          show "commutes a x (invoke rt b obj args' kwargs') s4"
            by (rule commutes_invoke)
        qed
      qed
    qed
    have "commutes a x (bind_result (record_snapshot b) (\<lambda>_. evaluate rt b cls args kwargs)) s"
    proof (rule commutes_bind)
      show "commutes a x (record_snapshot b) s"
        by (rule commutes_record_snapshot[OF ne])
    next
      fix v s1
      assume "record_snapshot b s = (Inr v, s1)"
      then have "s1 = ?s1" by (simp add: record_snapshot_def)
      then show "commutes a x (evaluate rt b cls args kwargs) s1" using ev by simp
    qed
    moreover have "build rt (PObj b cls args kwargs) s =
        bind_result (record_snapshot b) (\<lambda>_. evaluate rt b cls args kwargs) s"
      by (rule build_PObj_miss[OF False])
    moreover have "build rt (PObj b cls args kwargs) (poke a x s) =
        bind_result (record_snapshot b) (\<lambda>_. evaluate rt b cls args kwargs) (poke a x s)"
      using False test by (simp add: build_PObj_miss)
    ultimately show ?thesis by (simp add: commutes_def)
  qed
next
  case (4 rt s)
  show ?case by (simp add: commutes_def)
next
  case (5 rt y ys s)
  from "5.prems" have n1: "a \<notin> addrs y" and n2: "a \<notin> (\<Union>z \<in> set ys. addrs z)" by auto
  show ?case unfolding build_args_Cons
  proof (rule commutes_bind)
    show "commutes a x (build rt y) s" using "5.IH"(1)[OF n1] .
  next
    fix v s1
    assume a1: "build rt y s = (Inr v, s1)"
    show "commutes a x (bind_result (build_args rt ys) (\<lambda>vs. ret (v # vs))) s1"
    proof (rule commutes_bind)
      show "commutes a x (build_args rt ys) s1"
        using "5.IH"(2)[OF a1[symmetric] refl n2] .
    qed (rule commutes_ret)
  qed
next
  case (6 rt s)
  show ?case by (simp add: commutes_def)
next
  case (7 rt k y ys s)
  from "7.prems" have n1: "a \<notin> addrs y" and n2: "a \<notin> (\<Union>z \<in> set (map snd ys). addrs z)" by auto
  show ?case unfolding build_kwargs_Cons
  proof (rule commutes_bind)
    show "commutes a x (build rt y) s" using "7.IH"(1)[OF n1] .
  next
    fix v s1
    assume a1: "build rt y s = (Inr v, s1)"
    show "commutes a x (bind_result (build_kwargs rt ys) (\<lambda>vs. ret ((k, v) # vs))) s1"
    proof (rule commutes_bind)
      show "commutes a x (build_kwargs rt ys) s1"
        using "7.IH"(2)[OF a1[symmetric] refl n2] .
    qed (rule commutes_ret)
  qed
qed

subsection \<open>The first build of a new node; attribute and call proxies\<close>

lemma dict_update_Nil_iff: "dict_update d other = [] \<longleftrightarrow> d = [] \<and> other = []"
proof -
  have upd: "AList.update k v d \<noteq> []" for k :: 'a and v :: 'b and d
    by (cases d) auto
  have "other \<noteq> [] \<Longrightarrow> dict_update d other \<noteq> []" for d :: "('a \<times> 'b) list"
  proof (induction other arbitrary: d)
    case Nil
    then show ?case by simp
  next
    case (Cons kv other)
    obtain k v where kv: "kv = (k, v)" by (cases kv)
    show ?case
    proof (cases other)
      case Nil
      then show ?thesis using upd[of k v d] by (simp add: dict_update_def kv)
    next
      case (Cons kv' other')
      then have "dict_update (AList.update k v d) other \<noteq> []" using Cons.IH by simp
      then show ?thesis by (simp add: dict_update_def kv)
    qed
  qed
  then show ?thesis by (cases other) (auto simp: dict_update_def)
qed

lemma merge_variables_Nil:
  "fold (\<lambda>x d. if is_Parametrized x then dict_update d (variables s x) else d) xs d = [] \<longleftrightarrow>
   d = [] \<and> (\<forall>x \<in> set xs. variables s x = [])"
proof (induction xs arbitrary: d)
  case Nil
  then show ?case by simp
next
  case (Cons x xs)
  show ?case
  proof (cases x)
    case (Conc v)
    then show ?thesis using Cons.IH by simp
  next
    case (Var k a)
    then show ?thesis using Cons.IH by (simp add: dict_update_Nil_iff)
  next
    case (PObj a cls args kwargs)
    then show ?thesis using Cons.IH by (auto simp: dict_update_Nil_iff)
  qed
qed

lemma variables_Conc: "\<not> is_Parametrized x \<Longrightarrow> variables s x = []"
  by (cases x) simp_all

lemma ParamObj_no_variables:
  "node_vars (snd (ParamObj cls args kwargs s)) (next_addr s) = [] \<longleftrightarrow>
   (\<forall>x \<in> set (cls # args @ map snd kwargs). variables s x = [])"
proof -
  let ?v0 = "if is_Parametrized cls then dict_update [] (variables s cls) else []"
  have "?v0 = [] \<longleftrightarrow> variables s cls = []"
    by (simp add: dict_update_Nil_iff variables_Conc)
  then show ?thesis
    using merge_variables_Nil[of s "args @ map snd kwargs" ?v0]
    by (simp add: ParamObj_def Let_def)
qed

text \<open>The first build of a node just constructed over a plain callable and positional arguments.\<close>

lemma first_build:
  assumes new: "ParamObj (Conc f) xs [] s = (n, s1)"
    and old: "next_addr s \<notin> (\<Union>y \<in> set xs. addrs y)"
  shows "(\<forall>x \<in> set xs. variables s x = []) \<longrightarrow> build rt n s1 = (Inr PyNone, s1)"
    and "\<not> (\<forall>x \<in> set xs. variables s x = []) \<longrightarrow>
         fst (build rt n s1) =
           (case fst (build_args rt xs s1) of Inl e \<Rightarrow> Inl e | Inr vs \<Rightarrow> rt_call rt f vs [])"
proof -
  let ?a = "next_addr s"
  have n: "n = PObj ?a (Conc f) xs []" using new ParamObj_fst[of "Conc f" xs "[]" s] by simp
  have s1: "s1 = snd (ParamObj (Conc f) xs [] s)" using new by simp
  have fresh: "vars_state s1 ?a = []" "instance_of s1 ?a = PyNone"
    unfolding s1 by (simp_all add: ParamObj_fresh)
  have vars: "node_vars s1 ?a = [] \<longleftrightarrow> (\<forall>x \<in> set xs. variables s x = [])"
    unfolding s1 using ParamObj_no_variables[of "Conc f" xs "[]" s] by simp
  have test: "dict_eq (snapshot s1 ?a) (vars_state s1 ?a) \<longleftrightarrow> (\<forall>x \<in> set xs. variables s x = [])"
    using vars fresh by (simp add: snapshot_def)
  show "(\<forall>x \<in> set xs. variables s x = []) \<longrightarrow> build rt n s1 = (Inr PyNone, s1)"
    using test fresh by (simp add: n build_PObj)
  show "\<not> (\<forall>x \<in> set xs. variables s x = []) \<longrightarrow>
         fst (build rt n s1) =
           (case fst (build_args rt xs s1) of Inl e \<Rightarrow> Inl e | Inr vs \<Rightarrow> rt_call rt f vs [])"
  proof
    assume "\<not> (\<forall>x \<in> set xs. variables s x = [])"
    then have miss: "\<not> dict_eq (snapshot s1 ?a) (vars_state s1 ?a)" using test by simp
    let ?p = "poke ?a (snapshot s1 ?a) s1"
    have b: "build rt n s1 = evaluate rt ?a (Conc f) xs [] ?p"
      using miss by (simp add: n build_PObj poke_def)
    have c: "build_args rt xs ?p = (fst (build_args rt xs s1), poke ?a (snapshot s1 ?a) (snd (build_args rt xs s1)))"
      using build_commutes(2)[OF old, of "snapshot s1 ?a" rt s1] by (simp add: commutes_def)
    show "fst (build rt n s1) =
           (case fst (build_args rt xs s1) of Inl e \<Rightarrow> Inl e | Inr vs \<Rightarrow> rt_call rt f vs [])"
    proof (cases "fst (build_args rt xs s1)")
      case (Inl e)
      then show ?thesis using b c by (simp add: evaluate_def bind_result_def)
    next
      case (Inr vs)
      then show ?thesis using b c
        by (cases "rt_call rt f vs []")
           (simp_all add: evaluate_def bind_result_def build_cls_def invoke_def)
    qed
  qed
qed

lemma operator_lookup:
  "m \<in> set reversible_ops \<Longrightarrow> \<exists>f. map_of operator_table m = Some f"
  by (auto simp: reversible_ops_def operator_table_def)

lemma first_build_applied:
  assumes "ParamObj (Conc f) xs [] s = (n, s1)"
    and "next_addr s \<notin> (\<Union>y \<in> set xs. addrs y)"
  shows "(if \<forall>x \<in> set xs. variables s x = []
          then build rt n s1 = (Inr PyNone, s1)
          else fst (build rt n s1) = applied rt f xs s1)"
  using first_build[OF assms, of rt] by (simp add: applied_def)

lemma add_lookup: "map_of operator_table ''__add__'' = Some (PyFunc ''_operator'' ''add'')"
  by (simp add: operator_table_def)

lemma demo_new_nodes:
  "ParamObj (Conc (PyFunc ''_operator'' ''add'')) [demo_const, Conc (PyInt 3)] [] demo_const_state =
     (demo_const_plus, demo_const_plus_state)"
  "ParamObj (Conc (PyFunc ''_operator'' ''add'')) [Var ''x'' 0, Conc (PyInt 3)] [] demo_state =
     (demo_sum, demo_sum_state)"
  "ParamObj (Conc (PyFunc ''_operator'' ''add'')) [Conc (PyInt 3), Var ''x'' 0] [] demo_state =
     (demo_rsum, demo_sum_state)"
  by (simp_all add: ParamObj_def Let_def demo_defs demo_const_def demo_const_state_def
        demo_const_plus_def demo_const_plus_state_def demo_rsum_def dict_update_def fun_upd_idem)

lemma getattr_method_found:
  "hasattr rt cls n \<Longrightarrow>
   getattr_method rt (PObj a cls args kwargs) n s =
     (Inr (PObj (next_addr s) (Conc builtin_getattr) [PObj a cls args kwargs, Conc (PyStr n)] []),
      snd (ParamObj (Conc builtin_getattr) [PObj a cls args kwargs, Conc (PyStr n)] [] s))"
  by (simp add: ParamObj_fst split: prod.splits) (metis ParamObj_fst fst_conv)

lemma getattr_method_missing:
  "\<not> hasattr rt cls n \<Longrightarrow>
   getattr_method rt (PObj a cls args kwargs) n s =
     (if named rt (PObj a cls args kwargs)
      then (Inl (AttributeError (no_attribute_message n (spec_render rt (PObj a cls args kwargs)))), s)
      else (Inl (AttributeError ''__name__''), s))"
  using str_named(1)[of rt "PObj a cls args kwargs"] str_fails(1)[of rt "PObj a cls args kwargs"]
  by (cases "named rt (PObj a cls args kwargs)") (simp_all del: str.simps named.simps spec_render.simps)

lemma demo_amplitude_new:
  "ParamObj (Conc builtin_getattr) [demo_pulse, Conc (PyStr ''amplitude'')] [] demo_pulse_state =
     (demo_amplitude, demo_amplitude_state)"
  "ParamObj (Conc builtin_getattr) [demo_const, Conc (PyStr ''amplitude'')] [] demo_const_state =
     (demo_const_amplitude, demo_const_plus_state)"
  by (simp_all add: ParamObj_def Let_def demo_defs demo_pulse_def demo_pulse_state_def
        demo_amplitude_def demo_amplitude_state_def demo_const_def demo_const_state_def
        demo_const_amplitude_def demo_const_plus_state_def dict_update_def fun_upd_idem)


lemma own_attributes_demo:
  "''build'' \<in> set own_attributes" "''amplitude'' \<notin> set own_attributes"
  "''duration'' \<notin> set own_attributes"
  by (simp_all add: own_attributes_def OpSupport_methods_eq)

lemma attribute_access_proxy:
  "attribute_access rt x n s = (Inr (Proxy y), s1) \<Longrightarrow>
   \<not> found_on_node rt n \<and> getattr_method rt x n s = (Inr y, s1)"
  by (cases x) (auto split: if_splits prod.splits sum.splits)

text \<open>
  C1. Let a node be built (first call, arriving in \<open>s1\<close>), and let \<open>s2\<close> be any later
  store in which the node's own fields are as the first call left them. If no
  variable of the node has changed its version counter, the second \<open>build()\<close> returns
  the cached object and changes nothing (no callable is invoked); that object is the
  value the first call returned, when it returned one. If some variable of the node
  has changed its counter, the second \<open>build()\<close> evaluates again: the call log grows,
  and when the build returns \<open>r\<close>, the last logged call is the invocation of the
  resolved callable on the freshly built arguments, \<open>r\<close> is its result and \<open>r\<close> is
  cached; when it raises, the exception is the one the last invoked callable raised.
\<close>

theorem build_memoized:
  assumes acyc: "acyclic_node (PObj a cls args kwargs)"
    and first: "build rt (PObj a cls args kwargs) s = (res, s1)"
    and own: "node_vars s2 a = node_vars s1 a" "vars_state s2 a = vars_state s1 a"
             "instance_of s2 a = instance_of s1 a"
  shows "(\<forall>v. res = Inr v \<longrightarrow> instance_of s1 a = v) \<and>
         ((\<forall>k x. map_of (node_vars s1 a) k = Some x \<longrightarrow> var_count s2 x = var_count s1 x) \<longrightarrow>
            build rt (PObj a cls args kwargs) s2 = (Inr (instance_of s1 a), s2)) \<and>
         ((\<exists>k x. map_of (node_vars s1 a) k = Some x \<and> var_count s2 x \<noteq> var_count s1 x) \<longrightarrow>
            (\<exists>cs obj xs kw.
               calls (snd (build rt (PObj a cls args kwargs) s2)) = calls s2 @ cs @ [(obj, xs, kw)] \<and>
               (case fst (build rt (PObj a cls args kwargs) s2) of
                  Inl e \<Rightarrow> rt_call rt obj xs kw = Inl e
                | Inr r \<Rightarrow>
                    rt_call rt obj xs kw = Inr r \<and>
                    instance_of (snd (build rt (PObj a cls args kwargs) s2)) a = r \<and>
                    fst (operands rt cls args kwargs
                           (s2\<lparr>vars_state := (vars_state s2)(a := snapshot s2 a)\<rparr>)) = Inr (obj, xs, kw))))"
proof -
  from acyc have ac: "a \<notin> child_addrs cls args kwargs" by simp
  note r = build_result[OF first ac]
  have cached: "\<forall>v. res = Inr v \<longrightarrow> instance_of s1 a = v" using r(5) by blast
  have valid: "map_of (vars_state s1 a) = map_of (snapshot s1 a)"
    using r(4) by (simp add: dict_eq_def)
  have test: "dict_eq (snapshot s2 a) (vars_state s2 a) \<longleftrightarrow>
      (\<forall>k x. map_of (node_vars s1 a) k = Some x \<longrightarrow> var_count s2 x = var_count s1 x)"
    using dict_eq_snapshot[OF own(1)] valid own(2) by (simp add: dict_eq_def)
  have hit: "(\<forall>k x. map_of (node_vars s1 a) k = Some x \<longrightarrow> var_count s2 x = var_count s1 x) \<longrightarrow>
      build rt (PObj a cls args kwargs) s2 = (Inr (instance_of s1 a), s2)"
    using test own(3) by (simp add: build_PObj)
  have miss: "(\<exists>k x. map_of (node_vars s1 a) k = Some x \<and> var_count s2 x \<noteq> var_count s1 x) \<longrightarrow>
      (\<exists>cs obj xs kw.
         calls (snd (build rt (PObj a cls args kwargs) s2)) = calls s2 @ cs @ [(obj, xs, kw)] \<and>
         (case fst (build rt (PObj a cls args kwargs) s2) of
            Inl e \<Rightarrow> rt_call rt obj xs kw = Inl e
          | Inr r \<Rightarrow>
              rt_call rt obj xs kw = Inr r \<and>
              instance_of (snd (build rt (PObj a cls args kwargs) s2)) a = r \<and>
              fst (operands rt cls args kwargs
                     (s2\<lparr>vars_state := (vars_state s2)(a := snapshot s2 a)\<rparr>)) = Inr (obj, xs, kw)))"
  proof
    assume "\<exists>k x. map_of (node_vars s1 a) k = Some x \<and> var_count s2 x \<noteq> var_count s1 x"
    then have stale: "\<not> dict_eq (snapshot s2 a) (vars_state s2 a)" using test by blast
    let ?s = "s2\<lparr>vars_state := (vars_state s2)(a := snapshot s2 a)\<rparr>"
    obtain res2 s3 where ev: "evaluate rt a cls args kwargs ?s = (res2, s3)" by fastforce
    then have b: "build rt (PObj a cls args kwargs) s2 = (res2, s3)"
      using stale by (simp add: build_PObj)
    from evaluate_result[OF ev ac] obtain cs obj xs kw where
      c: "calls s3 = calls ?s @ cs @ [(obj, xs, kw)]" and
      d: "case res2 of
            Inl e \<Rightarrow> rt_call rt obj xs kw = Inl e \<and> instance_of s3 a = instance_of ?s a
          | Inr r \<Rightarrow> rt_call rt obj xs kw = Inr r \<and> instance_of s3 a = r \<and>
                     fst (operands rt cls args kwargs ?s) = Inr (obj, xs, kw)"
      by blast
    have "calls (snd (build rt (PObj a cls args kwargs) s2)) = calls s2 @ cs @ [(obj, xs, kw)] \<and>
         (case fst (build rt (PObj a cls args kwargs) s2) of
            Inl e \<Rightarrow> rt_call rt obj xs kw = Inl e
          | Inr r \<Rightarrow>
              rt_call rt obj xs kw = Inr r \<and>
              instance_of (snd (build rt (PObj a cls args kwargs) s2)) a = r \<and>
              fst (operands rt cls args kwargs ?s) = Inr (obj, xs, kw))"
      using b c d by (cases res2) simp_all
    then show "\<exists>cs obj xs kw.
         calls (snd (build rt (PObj a cls args kwargs) s2)) = calls s2 @ cs @ [(obj, xs, kw)] \<and>
         (case fst (build rt (PObj a cls args kwargs) s2) of
            Inl e \<Rightarrow> rt_call rt obj xs kw = Inl e
          | Inr r \<Rightarrow>
              rt_call rt obj xs kw = Inr r \<and>
              instance_of (snd (build rt (PObj a cls args kwargs) s2)) a = r \<and>
              fst (operands rt cls args kwargs ?s) = Inr (obj, xs, kw))"
      by blast
  qed
  from cached hit miss show ?thesis by blast
qed

theorem build_memoized_witness:
  "acyclic_node demo_sum \<and>
   build demo_rt demo_sum demo_sum_state = (Inr (PyInt 8), demo_sum_built) \<and>
   build demo_rt demo_sum demo_sum_built = (Inr (PyInt 8), demo_sum_built) \<and>
   map_of (node_vars demo_sum_built 0) ''x'' = Some 0 \<and>
   var_count demo_sum_bumped 0 \<noteq> var_count demo_sum_built 0 \<and>
   (\<exists>cs obj xs kw.
      calls (snd (build demo_rt demo_sum demo_sum_bumped)) = calls demo_sum_bumped @ cs @ [(obj, xs, kw)] \<and>
      (case fst (build demo_rt demo_sum demo_sum_bumped) of
         Inl e \<Rightarrow> rt_call demo_rt obj xs kw = Inl e
       | Inr r \<Rightarrow>
           rt_call demo_rt obj xs kw = Inr r \<and>
           instance_of (snd (build demo_rt demo_sum demo_sum_bumped)) 0 = r \<and>
           fst (operands demo_rt (Conc (PyFunc ''_operator'' ''add'')) [Var ''x'' 0, Conc (PyInt 3)] []
                  (demo_sum_bumped\<lparr>vars_state := (vars_state demo_sum_bumped)(0 := snapshot demo_sum_bumped 0)\<rparr>))
             = Inr (obj, xs, kw))) \<and>
   fst (build demo_rt demo_sum demo_sum_bumped) = Inr (PyInt 10)"
proof -
  have ac: "acyclic_node (PObj 0 (Conc (PyFunc ''_operator'' ''add'')) [Var ''x'' 0, Conc (PyInt 3)] [])"
    by (simp add: child_addrs_def)
  have first: "build demo_rt (PObj 0 (Conc (PyFunc ''_operator'' ''add'')) [Var ''x'' 0, Conc (PyInt 3)] [])
      demo_sum_state = (Inr (PyInt 8), demo_sum_built)"
    using demo_sum_first by (simp add: demo_sum_def)
  have same: "\<forall>k x. map_of (node_vars demo_sum_built 0) k = Some x \<longrightarrow>
      var_count demo_sum_built x = var_count demo_sum_built x" by simp
  have key: "map_of (node_vars demo_sum_built 0) ''x'' = Some 0"
    by (simp add: demo_defs)
  have bumped: "var_count demo_sum_bumped 0 \<noteq> var_count demo_sum_built 0"
    by (simp add: demo_defs)
  have changed: "\<exists>k x. map_of (node_vars demo_sum_built 0) k = Some x \<and>
      var_count demo_sum_bumped x \<noteq> var_count demo_sum_built x"
    using key bumped by blast
  have again: "build demo_rt demo_sum demo_sum_built = (Inr (PyInt 8), demo_sum_built)"
    using build_memoized[OF ac first refl refl refl] same
    by (simp add: demo_sum_def)
  have own: "node_vars demo_sum_bumped 0 = node_vars demo_sum_built 0"
    "vars_state demo_sum_bumped 0 = vars_state demo_sum_built 0"
    "instance_of demo_sum_bumped 0 = instance_of demo_sum_built 0"
    by (simp_all add: demo_sum_bumped_def)
  have rebuilt: "\<exists>cs obj xs kw.
      calls (snd (build demo_rt demo_sum demo_sum_bumped)) = calls demo_sum_bumped @ cs @ [(obj, xs, kw)] \<and>
      (case fst (build demo_rt demo_sum demo_sum_bumped) of
         Inl e \<Rightarrow> rt_call demo_rt obj xs kw = Inl e
       | Inr r \<Rightarrow>
           rt_call demo_rt obj xs kw = Inr r \<and>
           instance_of (snd (build demo_rt demo_sum demo_sum_bumped)) 0 = r \<and>
           fst (operands demo_rt (Conc (PyFunc ''_operator'' ''add'')) [Var ''x'' 0, Conc (PyInt 3)] []
                  (demo_sum_bumped\<lparr>vars_state := (vars_state demo_sum_bumped)(0 := snapshot demo_sum_bumped 0)\<rparr>))
             = Inr (obj, xs, kw))"
    using build_memoized[OF ac first own] changed unfolding demo_sum_def by blast
  have value10: "fst (build demo_rt demo_sum demo_sum_bumped) = Inr (PyInt 10)"
    by (simp add: build.simps demo_defs Let_def dict_eq_iff)
  show ?thesis
    using ac first again key bumped rebuilt value10 by (simp add: demo_sum_def)
qed

text \<open>
  C2 (what the code does instead). A node constructed from a non-symbolic target and
  non-symbolic arguments has the empty \<open>_variables\<close>; its first snapshot \<open>{}\<close> equals
  the initial \<open>_vars_state = {}\<close>, so \<open>build()\<close> takes the cached branch at once: it
  returns the initial \<open>_instance\<close> (\<open>None\<close>), leaves the store as it is and invokes
  nothing. The wrapped callable is invoked zero times, not once.
\<close>

theorem concrete_node_never_built:
  assumes "\<not> is_Parametrized cls"
    and "\<forall>x \<in> set args. \<not> is_Parametrized x"
    and "\<forall>x \<in> set (map snd kwargs). \<not> is_Parametrized x"
    and "ParamObj cls args kwargs s = (n, s1)"
  shows "node_vars s1 (next_addr s) = [] \<and> build rt n s1 = (Inr PyNone, s1) \<and> calls s1 = calls s"
proof -
  have n: "n = PObj (next_addr s) cls args kwargs" using assms(4) ParamObj_fst[of cls args kwargs s] by simp
  have s1: "s1 = snd (ParamObj cls args kwargs s)" using assms(4) by simp
  have all: "\<forall>x \<in> set (args @ map snd kwargs). \<not> is_Parametrized x" using assms(2,3) by auto
  have vars: "node_vars s1 (next_addr s) = []"
    unfolding s1 using assms(1) fold_no_variables[OF all] by (simp add: ParamObj_def Let_def)
  have fresh: "vars_state s1 (next_addr s) = []" "instance_of s1 (next_addr s) = PyNone"
    unfolding s1 by (simp_all add: ParamObj_fresh)
  have "snapshot s1 (next_addr s) = []" using vars by (simp add: snapshot_def)
  then have "build rt n s1 = (Inr PyNone, s1)"
    unfolding n using fresh by (simp add: build_PObj dict_eq_def)
  moreover have "calls s1 = calls s" unfolding s1 by (simp add: ParamObj_def Let_def)
  ultimately show ?thesis using vars by simp
qed

theorem concrete_node_never_built_witness:
  "\<not> is_Parametrized (Conc (PyFunc ''demo'' ''Pulse'')) \<and>
   ParamObj (Conc (PyFunc ''demo'' ''Pulse'')) [Conc (PyInt 1)] [] demo_state =
     (PObj 0 (Conc (PyFunc ''demo'' ''Pulse'')) [Conc (PyInt 1)] [], demo_state\<lparr>next_addr := 1\<rparr>) \<and>
   build demo_rt (PObj 0 (Conc (PyFunc ''demo'' ''Pulse'')) [Conc (PyInt 1)] []) (demo_state\<lparr>next_addr := 1\<rparr>) =
     (Inr PyNone, demo_state\<lparr>next_addr := 1\<rparr>) \<and>
   calls (demo_state\<lparr>next_addr := 1\<rparr>) = [] \<and>
   rt_call demo_rt (PyFunc ''demo'' ''Pulse'') [PyInt 1] [] = Inr (PyObj 1)"
proof -
  have c: "\<not> is_Parametrized (Conc (PyFunc ''demo'' ''Pulse''))" by simp
  have a: "\<forall>x \<in> set [Conc (PyInt 1)]. \<not> is_Parametrized x" by simp
  have k: "\<forall>x \<in> set (map snd ([] :: (key \<times> param) list)). \<not> is_Parametrized x" by simp
  have p: "ParamObj (Conc (PyFunc ''demo'' ''Pulse'')) [Conc (PyInt 1)] [] demo_state =
     (PObj 0 (Conc (PyFunc ''demo'' ''Pulse'')) [Conc (PyInt 1)] [], demo_state\<lparr>next_addr := 1\<rparr>)"
    by (simp add: ParamObj_def Let_def demo_state_def fun_upd_idem)
  have r: "rt_call demo_rt (PyFunc ''demo'' ''Pulse'') [PyInt 1] [] = Inr (PyObj 1)"
    by (simp add: demo_rt_def demo_call_def)
  from concrete_node_never_built[OF c a k p, of demo_rt] c p r show ?thesis
    by (simp add: demo_state_def)
qed

text \<open>
  C3 (what the code does instead). \<open>build()\<close> stores the new snapshot before it
  builds the arguments and invokes the callable. When the evaluation raises, the
  exception is the one the last invoked callable raised and \<open>_instance\<close> is as
  before, but \<open>_vars_state\<close> already holds the new snapshot: the next \<open>build()\<close> with
  unchanged counters returns the old \<open>_instance\<close> (absent or stale) and does not
  retry.
\<close>

theorem failed_build_not_retried:
  assumes acyc: "acyclic_node (PObj a cls args kwargs)"
    and failed: "build rt (PObj a cls args kwargs) s = (Inl e, s1)"
  shows "(\<exists>cs obj xs kw. calls s1 = calls s @ cs @ [(obj, xs, kw)] \<and> rt_call rt obj xs kw = Inl e) \<and>
         \<not> dict_eq (snapshot s a) (vars_state s a) \<and>
         vars_state s1 a = snapshot s a \<and>
         instance_of s1 a = instance_of s a \<and>
         build rt (PObj a cls args kwargs) s1 = (Inr (instance_of s a), s1)"
proof -
  from acyc have ac: "a \<notin> child_addrs cls args kwargs" by simp
  have stale: "\<not> dict_eq (snapshot s a) (vars_state s a)"
    using failed by (auto simp: build_PObj split: if_splits)
  let ?s = "s\<lparr>vars_state := (vars_state s)(a := snapshot s a)\<rparr>"
  have ev: "evaluate rt a cls args kwargs ?s = (Inl e, s1)"
    using failed stale by (simp add: build_PObj)
  from evaluate_result[OF ev ac] have keep: "instance_of s1 a = instance_of s a"
    and raised: "\<exists>cs obj xs kw. calls s1 = calls s @ cs @ [(obj, xs, kw)] \<and> rt_call rt obj xs kw = Inl e"
    by auto
  note r = build_result[OF failed ac]
  have snap: "vars_state s1 a = snapshot s a" using r(1) stale by simp
  have "build rt (PObj a cls args kwargs) s1 = (Inr (instance_of s1 a), s1)"
    using r(4) by (simp add: build_PObj)
  then show ?thesis using raised stale snap keep by simp
qed

theorem failed_build_not_retried_witness:
  "acyclic_node demo_fail \<and>
   fst (build demo_rt demo_fail demo_sum_state) = Inl (Raised ''TypeError'') \<and>
   vars_state demo_sum_state 0 = [] \<and>
   vars_state (snd (build demo_rt demo_fail demo_sum_state)) 0 = [(''x'', 0)] \<and>
   build demo_rt demo_fail (snd (build demo_rt demo_fail demo_sum_state)) =
     (Inr PyNone, snd (build demo_rt demo_fail demo_sum_state)) \<and>
   calls (snd (build demo_rt demo_fail demo_sum_state)) = [(PyFunc ''demo'' ''fail'', [PyInt 5], [])]"
proof -
  have ac: "acyclic_node (PObj 0 (Conc (PyFunc ''demo'' ''fail'')) [Var ''x'' 0] [])"
    by (simp add: child_addrs_def)
  have f: "build demo_rt (PObj 0 (Conc (PyFunc ''demo'' ''fail'')) [Var ''x'' 0] []) demo_sum_state =
     (Inl (Raised ''TypeError''),
      demo_sum_state\<lparr>vars_state := (\<lambda>a. [])(0 := [(''x'', 0)]),
                     calls := [(PyFunc ''demo'' ''fail'', [PyInt 5], [])]\<rparr>)"
    by (simp add: build.simps demo_defs Let_def)
  from failed_build_not_retried[OF ac f] ac f show ?thesis
    by (simp add: demo_fail_def snapshot_def) (simp add: demo_defs)
qed

text \<open>
  C4. The \<open>variables\<close> mapping of a new node is the union of the mappings of the
  target and of every positional argument and keyword value, a sub-object that is not
  symbolic contributing nothing (\<open>contribution\<close>): as a map it is their merge in that
  order (\<open>dict.update\<close>: where two sub-objects bind one key, the later binding
  stands), its keys are the union of their keys, each of its entries is an entry of
  one of them, and it is again a dict (no key twice). The sub-objects' mappings are
  dicts themselves, which is the hypothesis. After construction no operation changes
  the mapping: \<open>build\<close>, \<open>__call__\<close>, \<open>__getattr__\<close>, \<open>_to_dict\<close>, the binary and
  unary operators leave it as it is in every later store (\<open>__str__\<close> does not take
  the store at all).
\<close>

theorem variables_union_fixed:
  assumes dicts: "\<forall>x \<in> set (cls # args @ map snd kwargs). distinct (map fst (variables s x))"
    and new: "ParamObj cls args kwargs s = (n, s1)"
  shows "n = PObj (next_addr s) cls args kwargs \<and>
         map_of (variables s1 n) =
           foldl (++) Map.empty (map (contribution s) (cls # args @ map snd kwargs)) \<and>
         fst ` set (variables s1 n) = (\<Union>x \<in> set (cls # args @ map snd kwargs). dom (contribution s x)) \<and>
         (\<forall>k v. map_of (variables s1 n) k = Some v \<longrightarrow>
            (\<exists>x \<in> set (cls # args @ map snd kwargs). contribution s x k = Some v)) \<and>
         distinct (map fst (variables s1 n)) \<and>
         (\<forall>t rt p q xs kws name. next_addr s < next_addr t \<longrightarrow>
            variables (snd (build rt p t)) n = variables t n \<and>
            variables (snd (call_method rt p xs kws t)) n = variables t n \<and>
            variables (snd (getattr_method rt p name t)) n = variables t n \<and>
            variables (snd (to_dict rt p t)) n = variables t n \<and>
            variables (snd (magic name p q t)) n = variables t n \<and>
            variables (snd (OpSupport_neg p t)) n = variables t n \<and>
            variables (snd (OpSupport_abs p t)) n = variables t n)"
proof -
  let ?a = "next_addr s"
  let ?subs = "cls # args @ map snd kwargs"
  have n: "n = PObj ?a cls args kwargs" using new ParamObj_fst[of cls args kwargs s] by simp
  have s1: "s1 = snd (ParamObj cls args kwargs s)" using new by simp
  have v: "variables u n = node_vars u ?a" for u by (simp add: n)
  have m: "map_of (variables s1 n) = foldl (++) Map.empty (map (contribution s) ?subs)"
    using ParamObj_node_vars[OF dicts] by (simp add: v s1)
  have "dom (map_of (variables s1 n)) = (\<Union>x \<in> set ?subs. dom (contribution s x))"
    unfolding m dom_foldl_map_add by simp
  then have keys: "fst ` set (variables s1 n) = (\<Union>x \<in> set ?subs. dom (contribution s x))"
    by (simp add: dom_map_of_conv_image_fst)
  have src: "\<forall>k w. map_of (variables s1 n) k = Some w \<longrightarrow> (\<exists>x \<in> set ?subs. contribution s x k = Some w)"
  proof (intro allI impI)
    fix k w assume "map_of (variables s1 n) k = Some w"
    then have "foldl (++) Map.empty (map (contribution s) ?subs) k = Some w" by (simp add: m)
    from foldl_map_add_source[OF this] show "\<exists>x \<in> set ?subs. contribution s x k = Some w"
      by auto
  qed
  have d: "distinct (map fst (variables s1 n))"
    using ParamObj_distinct[of cls args kwargs s] by (simp add: v s1)
  have frame: "\<forall>t rt p q xs kws name. ?a < next_addr t \<longrightarrow>
            variables (snd (build rt p t)) n = variables t n \<and>
            variables (snd (call_method rt p xs kws t)) n = variables t n \<and>
            variables (snd (getattr_method rt p name t)) n = variables t n \<and>
            variables (snd (to_dict rt p t)) n = variables t n \<and>
            variables (snd (magic name p q t)) n = variables t n \<and>
            variables (snd (OpSupport_neg p t)) n = variables t n \<and>
            variables (snd (OpSupport_abs p t)) n = variables t n"
  proof (intro allI impI)
    fix t :: state and rt :: runtime and p q :: param and xs :: "param list"
      and kws :: "(key \<times> param) list" and name :: string
    assume "?a < next_addr t"
    then have ne: "?a \<noteq> next_addr t" by simp
    have keep: "allocates_only t u \<Longrightarrow> variables u n = variables t n" for u
      using ne by (simp add: allocates_only_def n)
    show "variables (snd (build rt p t)) n = variables t n \<and>
          variables (snd (call_method rt p xs kws t)) n = variables t n \<and>
          variables (snd (getattr_method rt p name t)) n = variables t n \<and>
          variables (snd (to_dict rt p t)) n = variables t n \<and>
          variables (snd (magic name p q t)) n = variables t n \<and>
          variables (snd (OpSupport_neg p t)) n = variables t n \<and>
          variables (snd (OpSupport_abs p t)) n = variables t n"
      using keep[OF call_method_allocates] keep[OF getattr_method_allocates]
        keep[OF magic_allocates] keep[OF neg_allocates] keep[OF abs_allocates]
      by (simp add: to_dict_state) (simp add: n build_node_vars)
  qed
  from n m keys src d frame show ?thesis by blast
qed

theorem variables_union_fixed_witness:
  "distinct (map fst (variables demo_state (Var ''x'' 0))) \<and>
   distinct (map fst (variables demo_state (Var ''y'' 1))) \<and>
   ParamObj (Conc (PyFunc ''demo'' ''Pulse'')) [Var ''x'' 0] [(''phase'', Var ''y'' 1)] demo_state =
     (demo_pulse, demo_pulse_state) \<and>
   variables demo_pulse_state demo_pulse = [(''x'', 0), (''y'', 1)] \<and>
   map_of (variables demo_pulse_state demo_pulse) =
     foldl (++) Map.empty
       [contribution demo_state (Conc (PyFunc ''demo'' ''Pulse'')),
        contribution demo_state (Var ''x'' 0), contribution demo_state (Var ''y'' 1)] \<and>
   variables (snd (build demo_rt demo_pulse demo_pulse_state)) demo_pulse = [(''x'', 0), (''y'', 1)] \<and>
   variables (snd (call_method demo_rt demo_pulse [] [] demo_pulse_state)) demo_pulse = [(''x'', 0), (''y'', 1)] \<and>
   variables (snd (getattr_method demo_rt demo_pulse ''amplitude'' demo_pulse_state)) demo_pulse = [(''x'', 0), (''y'', 1)] \<and>
   variables (snd (magic ''__add__'' demo_pulse (Conc (PyInt 3)) demo_pulse_state)) demo_pulse = [(''x'', 0), (''y'', 1)]"
proof -
  have dicts: "\<forall>x \<in> set (Conc (PyFunc ''demo'' ''Pulse'') # [Var ''x'' 0] @ map snd [(''phase'', Var ''y'' 1)]).
      distinct (map fst (variables demo_state x))" by simp
  have new: "ParamObj (Conc (PyFunc ''demo'' ''Pulse'')) [Var ''x'' 0] [(''phase'', Var ''y'' 1)] demo_state =
     (demo_pulse, demo_pulse_state)"
    by (simp add: ParamObj_def Let_def demo_state_def demo_pulse_def demo_pulse_state_def
          dict_update_def fun_upd_idem)
  have vars: "variables demo_pulse_state demo_pulse = [(''x'', 0), (''y'', 1)]"
    by (simp add: demo_pulse_def demo_pulse_state_def)
  have later: "next_addr demo_state < next_addr demo_pulse_state"
    by (simp add: demo_state_def demo_pulse_state_def)
  note inst = variables_union_fixed[OF dicts new]
  from inst have m: "map_of (variables demo_pulse_state demo_pulse) =
     foldl (++) Map.empty
       [contribution demo_state (Conc (PyFunc ''demo'' ''Pulse'')),
        contribution demo_state (Var ''x'' 0), contribution demo_state (Var ''y'' 1)]"
    by simp
  from inst later have
    "variables (snd (build demo_rt demo_pulse demo_pulse_state)) demo_pulse = variables demo_pulse_state demo_pulse"
    "variables (snd (call_method demo_rt demo_pulse [] [] demo_pulse_state)) demo_pulse = variables demo_pulse_state demo_pulse"
    "variables (snd (getattr_method demo_rt demo_pulse ''amplitude'' demo_pulse_state)) demo_pulse = variables demo_pulse_state demo_pulse"
    "variables (snd (magic ''__add__'' demo_pulse (Conc (PyInt 3)) demo_pulse_state)) demo_pulse = variables demo_pulse_state demo_pulse"
    by blast+
  with new vars m show ?thesis by simp
qed

text \<open>
  C5 (what the code does). For each name \<open>m\<close> in \<open>reversible_ops\<close> and operands
  allocated before the call: the forward method returns a new node wrapping the
  operator function of the table with the arguments \<open>(a, b)\<close>, the reflected method
  one with the arguments \<open>(b, a)\<close> (\<open>a\<close> is \<open>self\<close>, \<open>b\<close> is \<open>other\<close>), negation and
  absolute value wrap the single operand; none of them builds anything
  (\<open>allocates_only\<close>). The first build of the new node is the operator function
  applied to the built operands (\<open>applied\<close>) when an operand refers to a variable.
  When no operand does, the build returns \<open>None\<close> and applies nothing, as in C2.
\<close>

theorem operator_nodes:
  assumes m: "m \<in> set reversible_ops"
    and old: "next_addr s \<notin> addrs a \<union> addrs b"
  shows "\<exists>f. map_of operator_table m = Some f \<and>
     magic m a b s =
       (Inr (PObj (next_addr s) (Conc f) [a, b] []), snd (ParamObj (Conc f) [a, b] [] s)) \<and>
     magic (rmethod m) a b s =
       (Inr (PObj (next_addr s) (Conc f) [b, a] []), snd (ParamObj (Conc f) [b, a] [] s)) \<and>
     fst (OpSupport_neg a s) = PObj (next_addr s) (Conc operator_neg) [a] [] \<and>
     fst (OpSupport_abs a s) = PObj (next_addr s) (Conc operator_abs) [a] [] \<and>
     allocates_only s (snd (magic m a b s)) \<and>
     allocates_only s (snd (magic (rmethod m) a b s)) \<and>
     allocates_only s (snd (OpSupport_neg a s)) \<and>
     allocates_only s (snd (OpSupport_abs a s)) \<and>
     (if variables s a = [] \<and> variables s b = []
      then build rt (PObj (next_addr s) (Conc f) [a, b] []) (snd (magic m a b s)) =
             (Inr PyNone, snd (magic m a b s)) \<and>
           build rt (PObj (next_addr s) (Conc f) [b, a] []) (snd (magic (rmethod m) a b s)) =
             (Inr PyNone, snd (magic (rmethod m) a b s))
      else fst (build rt (PObj (next_addr s) (Conc f) [a, b] []) (snd (magic m a b s))) =
             applied rt f [a, b] (snd (magic m a b s)) \<and>
           fst (build rt (PObj (next_addr s) (Conc f) [b, a] []) (snd (magic (rmethod m) a b s))) =
             applied rt f [b, a] (snd (magic (rmethod m) a b s)))"
proof -
  from operator_lookup[OF m] obtain f where f: "map_of operator_table m = Some f" by blast
  let ?n = "PObj (next_addr s) (Conc f) [a, b] []"
  let ?s1 = "snd (ParamObj (Conc f) [a, b] [] s)"
  let ?r = "PObj (next_addr s) (Conc f) [b, a] []"
  let ?s2 = "snd (ParamObj (Conc f) [b, a] [] s)"
  have fw: "magic m a b s = (Inr ?n, ?s1)"
    using magic_forward[OF m] do_op_Some[OF f] by (simp add: ParamObj_fst)
  have rf: "magic (rmethod m) a b s = (Inr ?r, ?s2)"
    using magic_reflected[OF m] do_rop_Some[OF f] by (simp add: ParamObj_fst)
  have p1: "ParamObj (Conc f) [a, b] [] s = (?n, ?s1)" by (simp add: prod_eq_iff ParamObj_fst)
  have p2: "ParamObj (Conc f) [b, a] [] s = (?r, ?s2)" by (simp add: prod_eq_iff ParamObj_fst)
  have o1: "next_addr s \<notin> (\<Union>y \<in> set [a, b]. addrs y)" using old by simp
  have o2: "next_addr s \<notin> (\<Union>y \<in> set [b, a]. addrs y)" using old by simp
  have b1: "if variables s a = [] \<and> variables s b = []
      then build rt ?n ?s1 = (Inr PyNone, ?s1) else fst (build rt ?n ?s1) = applied rt f [a, b] ?s1"
    using first_build_applied[OF p1 o1, of rt] by simp
  have b2: "if variables s a = [] \<and> variables s b = []
      then build rt ?r ?s2 = (Inr PyNone, ?s2) else fst (build rt ?r ?s2) = applied rt f [b, a] ?s2"
    using first_build_applied[OF p2 o2, of rt] by (simp add: conj_commute)
  have al: "allocates_only s (snd (magic m a b s))" "allocates_only s (snd (magic (rmethod m) a b s))"
    "allocates_only s (snd (OpSupport_neg a s))" "allocates_only s (snd (OpSupport_abs a s))"
    by (rule magic_allocates magic_allocates neg_allocates abs_allocates)+
  have un: "fst (OpSupport_neg a s) = PObj (next_addr s) (Conc operator_neg) [a] []"
    "fst (OpSupport_abs a s) = PObj (next_addr s) (Conc operator_abs) [a] []"
    by (simp_all add: OpSupport_neg_def OpSupport_abs_def ParamObj_fst)
  show ?thesis
    using f fw rf un al b1 b2 by (intro exI[of _ f]) (simp split: if_splits)
qed

theorem operator_nodes_witness:
  "''__add__'' \<in> set reversible_ops \<and> rmethod ''__add__'' = ''__radd__'' \<and>
   magic ''__add__'' demo_const (Conc (PyInt 3)) demo_const_state = (Inr demo_const_plus, demo_const_plus_state) \<and>
   variables demo_const_state demo_const = [] \<and>
   build demo_rt demo_const_plus demo_const_plus_state = (Inr PyNone, demo_const_plus_state) \<and>
   applied demo_rt (PyFunc ''_operator'' ''add'') [demo_const, Conc (PyInt 3)] demo_const_plus_state =
     Inl (Raised ''TypeError'') \<and>
   magic ''__add__'' (Var ''x'' 0) (Conc (PyInt 3)) demo_state = (Inr demo_sum, demo_sum_state) \<and>
   fst (build demo_rt demo_sum demo_sum_state) = Inr (PyInt 8) \<and>
   applied demo_rt (PyFunc ''_operator'' ''add'') [Var ''x'' 0, Conc (PyInt 3)] demo_sum_state = Inr (PyInt 8) \<and>
   magic ''__radd__'' (Var ''x'' 0) (Conc (PyInt 3)) demo_state = (Inr demo_rsum, demo_sum_state) \<and>
   fst (build demo_rt demo_rsum demo_sum_state) = Inr (PyInt 8)"
proof -
  have m: "''__add__'' \<in> set reversible_ops" by (simp add: reversible_ops_def)
  have r: "rmethod ''__add__'' = ''__radd__''" by (simp add: rmethod_def)
  have old1: "next_addr demo_const_state \<notin> addrs demo_const \<union> addrs (Conc (PyInt 3))"
    by (simp add: demo_const_state_def demo_const_def demo_state_def)
  have old2: "next_addr demo_state \<notin> addrs (Var ''x'' 0) \<union> addrs (Conc (PyInt 3))"
    by simp
  have v1: "variables demo_const_state demo_const = []"
    by (simp add: demo_const_state_def demo_const_def demo_state_def)
  have n1: "next_addr demo_const_state = 1" "next_addr demo_state = 0"
    by (simp_all add: demo_const_state_def demo_state_def)
  from operator_nodes[OF m old1, of demo_rt] v1
  have c: "magic ''__add__'' demo_const (Conc (PyInt 3)) demo_const_state = (Inr demo_const_plus, demo_const_plus_state)
      \<and> build demo_rt demo_const_plus demo_const_plus_state = (Inr PyNone, demo_const_plus_state)"
    by (auto simp: add_lookup demo_new_nodes n1 demo_const_plus_def)
  have ap1: "applied demo_rt (PyFunc ''_operator'' ''add'') [demo_const, Conc (PyInt 3)] demo_const_plus_state =
     Inl (Raised ''TypeError'')"
    by (simp add: applied_def build_PObj demo_const_def demo_const_plus_state_def demo_state_def
          snapshot_def demo_rt_def demo_call_def)
  from operator_nodes[OF m old2, of demo_rt]
  have x: "magic ''__add__'' (Var ''x'' 0) (Conc (PyInt 3)) demo_state = (Inr demo_sum, demo_sum_state)
      \<and> fst (build demo_rt demo_sum demo_sum_state) =
          applied demo_rt (PyFunc ''_operator'' ''add'') [Var ''x'' 0, Conc (PyInt 3)] demo_sum_state
      \<and> magic ''__radd__'' (Var ''x'' 0) (Conc (PyInt 3)) demo_state = (Inr demo_rsum, demo_sum_state)
      \<and> fst (build demo_rt demo_rsum demo_sum_state) =
          applied demo_rt (PyFunc ''_operator'' ''add'') [Conc (PyInt 3), Var ''x'' 0] demo_sum_state"
    by (auto simp: add_lookup demo_new_nodes n1 r demo_sum_def demo_rsum_def)
  have ap2: "applied demo_rt (PyFunc ''_operator'' ''add'') [Var ''x'' 0, Conc (PyInt 3)] demo_sum_state = Inr (PyInt 8)"
    "applied demo_rt (PyFunc ''_operator'' ''add'') [Conc (PyInt 3), Var ''x'' 0] demo_sum_state = Inr (PyInt 8)"
    by (simp_all add: applied_def demo_defs)
  from m r c v1 ap1 x ap2 show ?thesis by simp
qed

text \<open>
  C6 (what the code does). Let \<open>x\<close> be a node allocated before the access and
  \<open>(y, s1)\<close> what \<open>ParamObj(getattr, x, n)\<close> constructs. If the target of \<open>x\<close> exposes
  \<open>n\<close>, \<open>__getattr__\<close> returns \<open>y\<close> in \<open>s1\<close> and builds nothing. The first build of
  \<open>y\<close> is \<open>getattr(build(x), n)\<close> when \<open>x\<close> refers to a variable; when \<open>x\<close> refers to
  none, the build returns \<open>None\<close>, builds no \<open>x\<close> and calls no \<open>getattr\<close>, as in C2.
  If the target does not expose \<open>n\<close>, \<open>__getattr__\<close> raises an \<open>AttributeError\<close>: the
  one naming the attribute and the rendering of \<open>x\<close> when \<open>x\<close> has a rendering, the
  one of the missing \<open>__name__\<close> otherwise.
\<close>

theorem attribute_proxy:
  assumes x: "x = PObj a cls args kwargs"
    and old: "next_addr s \<notin> addrs x"
    and new: "ParamObj (Conc builtin_getattr) [x, Conc (PyStr n)] [] s = (y, s1)"
  shows "(hasattr rt cls n \<longrightarrow>
            getattr_method rt x n s = (Inr y, s1) \<and>
            allocates_only s s1 \<and>
            (if variables s x = []
             then build rt y s1 = (Inr PyNone, s1)
             else fst (build rt y s1) =
                    (case fst (build rt x s1) of
                       Inl e \<Rightarrow> Inl e
                     | Inr v \<Rightarrow> rt_call rt builtin_getattr [v, PyStr n] []))) \<and>
         (\<not> hasattr rt cls n \<longrightarrow>
            getattr_method rt x n s =
              (if named rt x
               then (Inl (AttributeError (no_attribute_message n (spec_render rt x))), s)
               else (Inl (AttributeError ''__name__''), s)))"
proof -
  have y: "y = PObj (next_addr s) (Conc builtin_getattr) [x, Conc (PyStr n)] []"
    and s1: "s1 = snd (ParamObj (Conc builtin_getattr) [x, Conc (PyStr n)] [] s)"
    using new ParamObj_fst[of "Conc builtin_getattr" "[x, Conc (PyStr n)]" "[]" s] by simp_all
  have o: "next_addr s \<notin> (\<Union>y \<in> set [x, Conc (PyStr n)]. addrs y)" using old by simp
  have b: "if variables s x = []
             then build rt y s1 = (Inr PyNone, s1)
             else fst (build rt y s1) =
                    (case fst (build rt x s1) of
                       Inl e \<Rightarrow> Inl e
                     | Inr v \<Rightarrow> rt_call rt builtin_getattr [v, PyStr n] [])"
  proof (cases "variables s x = []")
    case True
    then show ?thesis using first_build_applied[OF new o, of rt] by simp
  next
    case False
    then have "fst (build rt y s1) = applied rt builtin_getattr [x, Conc (PyStr n)] s1"
      using first_build_applied[OF new o, of rt] by simp
    then have "fst (build rt y s1) =
         (case fst (build rt x s1) of Inl e \<Rightarrow> Inl e | Inr v \<Rightarrow> rt_call rt builtin_getattr [v, PyStr n] [])"
      by (cases "build rt x s1"; cases "fst (build rt x s1)")
         (simp_all add: applied_def)
    then show ?thesis using False by simp
  qed
  have found: "hasattr rt cls n \<longrightarrow> getattr_method rt x n s = (Inr y, s1) \<and> allocates_only s s1"
  proof
    assume h: "hasattr rt cls n"
    have g: "getattr_method rt x n s = (Inr y, s1)"
      unfolding x y s1 using getattr_method_found[OF h] by simp
    have al: "allocates_only s s1" unfolding s1 by (rule ParamObj_allocates)
    from g al show "getattr_method rt x n s = (Inr y, s1) \<and> allocates_only s s1" by blast
  qed
  have missing: "\<not> hasattr rt cls n \<longrightarrow>
      getattr_method rt x n s =
        (if named rt x
         then (Inl (AttributeError (no_attribute_message n (spec_render rt x))), s)
         else (Inl (AttributeError ''__name__''), s))"
    unfolding x using getattr_method_missing by blast
  from found b missing show ?thesis by blast
qed

theorem attribute_proxy_witness:
  "next_addr demo_pulse_state \<notin> addrs demo_pulse \<and>
   hasattr demo_rt (Conc (PyFunc ''demo'' ''Pulse'')) ''amplitude'' \<and>
   getattr_method demo_rt demo_pulse ''amplitude'' demo_pulse_state = (Inr demo_amplitude, demo_amplitude_state) \<and>
   allocates_only demo_pulse_state demo_amplitude_state \<and>
   variables demo_pulse_state demo_pulse \<noteq> [] \<and>
   fst (build demo_rt demo_pulse demo_amplitude_state) = Inr (PyObj 5) \<and>
   fst (build demo_rt demo_amplitude demo_amplitude_state) = Inr (PyObj 6) \<and>
   rt_call demo_rt builtin_getattr [PyObj 5, PyStr ''amplitude''] [] = Inr (PyObj 6) \<and>
   \<not> hasattr demo_rt (Conc (PyFunc ''demo'' ''Pulse'')) ''duration'' \<and>
   named demo_rt demo_pulse \<and>
   getattr_method demo_rt demo_pulse ''duration'' demo_pulse_state =
     (Inl (AttributeError (no_attribute_message ''duration'' ''Pulse(x, phase=y)'')), demo_pulse_state) \<and>
   next_addr demo_const_state \<notin> addrs demo_const \<and>
   variables demo_const_state demo_const = [] \<and>
   getattr_method demo_rt demo_const ''amplitude'' demo_const_state =
     (Inr demo_const_amplitude, demo_const_plus_state) \<and>
   build demo_rt demo_const_amplitude demo_const_plus_state = (Inr PyNone, demo_const_plus_state) \<and>
   fst (build demo_rt demo_const demo_const_plus_state) = Inr PyNone \<and>
   rt_call demo_rt builtin_getattr [PyNone, PyStr ''amplitude''] [] = Inl (AttributeError ''getattr'')"
proof -
  have x: "demo_pulse = PObj 0 (Conc (PyFunc ''demo'' ''Pulse'')) [Var ''x'' 0] [(''phase'', Var ''y'' 1)]"
    by (simp add: demo_pulse_def)
  have old: "next_addr demo_pulse_state \<notin> addrs demo_pulse"
    by (simp add: demo_pulse_def demo_pulse_state_def)
  have h: "hasattr demo_rt (Conc (PyFunc ''demo'' ''Pulse'')) ''amplitude''"
    "\<not> hasattr demo_rt (Conc (PyFunc ''demo'' ''Pulse'')) ''duration''"
    by (simp_all add: demo_rt_def)
  have v: "variables demo_pulse_state demo_pulse \<noteq> []"
    by (simp add: demo_pulse_def demo_pulse_state_def)
  have nm: "named demo_rt demo_pulse" "spec_render demo_rt demo_pulse = ''Pulse(x, phase=y)''"
    by (simp_all add: demo_pulse_def demo_rt_def)
  have bx: "fst (build demo_rt demo_pulse demo_amplitude_state) = Inr (PyObj 5)"
    by (simp add: build_PObj snapshot_def demo_defs demo_pulse_def demo_pulse_state_def
          demo_amplitude_state_def evaluate_def bind_result_def build_cls_def invoke_def)
  have gc: "rt_call demo_rt builtin_getattr [PyObj 5, PyStr ''amplitude''] [] = Inr (PyObj 6)"
    "rt_call demo_rt builtin_getattr [PyNone, PyStr ''amplitude''] [] = Inl (AttributeError ''getattr'')"
    by (simp_all add: demo_rt_def demo_call_def builtin_getattr_def)
  have other: "ParamObj (Conc builtin_getattr) [demo_pulse, Conc (PyStr ''duration'')] [] demo_pulse_state =
      (fst (ParamObj (Conc builtin_getattr) [demo_pulse, Conc (PyStr ''duration'')] [] demo_pulse_state),
       snd (ParamObj (Conc builtin_getattr) [demo_pulse, Conc (PyStr ''duration'')] [] demo_pulse_state))"
    by simp
  from attribute_proxy[OF x old demo_amplitude_new(1), of demo_rt] h(1) v bx gc(1)
  have found: "getattr_method demo_rt demo_pulse ''amplitude'' demo_pulse_state = (Inr demo_amplitude, demo_amplitude_state)
      \<and> allocates_only demo_pulse_state demo_amplitude_state
      \<and> fst (build demo_rt demo_amplitude demo_amplitude_state) = Inr (PyObj 6)"
    by simp
  from attribute_proxy[OF x old other, of demo_rt] h(2) nm
  have missing: "getattr_method demo_rt demo_pulse ''duration'' demo_pulse_state =
     (Inl (AttributeError (no_attribute_message ''duration'' ''Pulse(x, phase=y)'')), demo_pulse_state)"
    by simp
  have xc: "demo_const = PObj 0 (Conc (PyFunc ''demo'' ''Pulse'')) [Conc (PyInt 1)] []"
    by (simp add: demo_const_def)
  have oldc: "next_addr demo_const_state \<notin> addrs demo_const"
    by (simp add: demo_const_def demo_const_state_def demo_state_def)
  have vc: "variables demo_const_state demo_const = []"
    by (simp add: demo_const_def demo_const_state_def demo_state_def)
  from attribute_proxy[OF xc oldc demo_amplitude_new(2), of demo_rt] h(1) vc
  have never: "getattr_method demo_rt demo_const ''amplitude'' demo_const_state =
       (Inr demo_const_amplitude, demo_const_plus_state)
     \<and> build demo_rt demo_const_amplitude demo_const_plus_state = (Inr PyNone, demo_const_plus_state)"
    by simp
  have bc: "fst (build demo_rt demo_const demo_const_plus_state) = Inr PyNone"
    by (simp add: build_PObj snapshot_def demo_const_def demo_const_plus_state_def demo_state_def)
  from old h v nm bx gc found missing oldc vc never bc show ?thesis by simp
qed




text \<open>
  C8. \<open>_to_dict\<close> leaves the store as it is: it builds nothing, logs no invocation and
  writes no cache. When the target is symbolic, the first positional argument handed
  to \<open>obj_to_dict\<close> (the constructor field) is the target's own description, obtained
  recursively; when the target is an ordinary object with a name and a module, it is
  the description that records that name and module (with \<open>_build=False\<close>). The
  positional arguments follow in their order and the keyword arguments are passed
  through in theirs.
\<close>

theorem to_dict_description:
  "snd (to_dict rt p s) = s \<and>
   (\<forall>d. is_Parametrized cls \<and> fst (to_dict rt cls s) = Inr d \<longrightarrow>
      fst (to_dict rt (PObj a cls args kwargs) s) =
        Inr (Obj_to_dict (PObj a cls args kwargs)
               (Described d # map Operand args)
               (map (\<lambda>(k, v). (k, Operand v)) kwargs))) \<and>
   (\<forall>f n m. cls = Conc f \<and> rt_name rt f = Some n \<and> rt_module rt f = Some m \<longrightarrow>
      fst (to_dict rt (PObj a cls args kwargs) s) =
        Inr (Obj_to_dict (PObj a cls args kwargs)
               (Described (Obj_to_dict (PObj a cls args kwargs) []
                             [(''_build'', Flag False), (''_name'', Text n), (''_module'', Text m)])
                # map Operand args)
               (map (\<lambda>(k, v). (k, Operand v)) kwargs)))"
proof -
  have sym: "\<forall>d. is_Parametrized cls \<and> fst (to_dict rt cls s) = Inr d \<longrightarrow>
      fst (to_dict rt (PObj a cls args kwargs) s) =
        Inr (Obj_to_dict (PObj a cls args kwargs)
               (Described d # map Operand args)
               (map (\<lambda>(k, v). (k, Operand v)) kwargs))"
  proof (intro allI impI)
    fix d assume h: "is_Parametrized cls \<and> fst (to_dict rt cls s) = Inr d"
    then obtain t where t: "to_dict rt cls s = (Inr d, t)" by (cases "to_dict rt cls s") auto
    from h show "fst (to_dict rt (PObj a cls args kwargs) s) =
        Inr (Obj_to_dict (PObj a cls args kwargs)
               (Described d # map Operand args)
               (map (\<lambda>(k, v). (k, Operand v)) kwargs))"
      by (simp add: to_dict_symbolic t del: to_dict.simps)
  qed
  have conc: "\<forall>f n m. cls = Conc f \<and> rt_name rt f = Some n \<and> rt_module rt f = Some m \<longrightarrow>
      fst (to_dict rt (PObj a cls args kwargs) s) =
        Inr (Obj_to_dict (PObj a cls args kwargs)
               (Described (Obj_to_dict (PObj a cls args kwargs) []
                             [(''_build'', Flag False), (''_name'', Text n), (''_module'', Text m)])
                # map Operand args)
               (map (\<lambda>(k, v). (k, Operand v)) kwargs))"
    by simp
  from to_dict_state sym conc show ?thesis by blast
qed

theorem to_dict_description_witness:
  "rt_name demo_rt (PyFunc ''demo'' ''Pulse'') = Some ''Pulse'' \<and>
   rt_module demo_rt (PyFunc ''demo'' ''Pulse'') = Some ''demo'' \<and>
   to_dict demo_rt demo_pulse demo_pulse_state =
     (Inr (Obj_to_dict demo_pulse
             [Described (Obj_to_dict demo_pulse []
                           [(''_build'', Flag False), (''_name'', Text ''Pulse''), (''_module'', Text ''demo'')]),
              Operand (Var ''x'' 0)]
             [(''phase'', Operand (Var ''y'' 1))]), demo_pulse_state) \<and>
   is_Parametrized demo_pulse \<and>
   to_dict demo_rt demo_called demo_pulse_state =
     (Inr (Obj_to_dict demo_called
             [Described (Obj_to_dict demo_pulse
                [Described (Obj_to_dict demo_pulse []
                           [(''_build'', Flag False), (''_name'', Text ''Pulse''), (''_module'', Text ''demo'')]),
                 Operand (Var ''x'' 0)]
                [(''phase'', Operand (Var ''y'' 1))])]
             []), demo_pulse_state)"
proof -
  have nm: "rt_name demo_rt (PyFunc ''demo'' ''Pulse'') = Some ''Pulse''"
    "rt_module demo_rt (PyFunc ''demo'' ''Pulse'') = Some ''demo''"
    by (simp_all add: demo_rt_def)
  have par: "is_Parametrized demo_pulse" by (simp add: demo_pulse_def)
  note d = to_dict_description[of demo_rt demo_pulse demo_pulse_state
      "Conc (PyFunc ''demo'' ''Pulse'')" 0 "[Var ''x'' 0]" "[(''phase'', Var ''y'' 1)]"]
  from d nm have inner: "fst (to_dict demo_rt demo_pulse demo_pulse_state) =
     Inr (Obj_to_dict demo_pulse
             [Described (Obj_to_dict demo_pulse []
                           [(''_build'', Flag False), (''_name'', Text ''Pulse''), (''_module'', Text ''demo'')]),
              Operand (Var ''x'' 0)]
             [(''phase'', Operand (Var ''y'' 1))])"
    by (simp add: demo_pulse_def)
  from d have same: "snd (to_dict demo_rt demo_pulse demo_pulse_state) = demo_pulse_state" by simp
  note c = to_dict_description[of demo_rt demo_called demo_pulse_state demo_pulse 1 "[]" "[]"]
  from c par inner have outer: "fst (to_dict demo_rt demo_called demo_pulse_state) =
     Inr (Obj_to_dict demo_called
             [Described (Obj_to_dict demo_pulse
                [Described (Obj_to_dict demo_pulse []
                           [(''_build'', Flag False), (''_name'', Text ''Pulse''), (''_module'', Text ''demo'')]),
                 Operand (Var ''x'' 0)]
                [(''phase'', Operand (Var ''y'' 1))])]
             [])"
    by (simp add: demo_called_def)
  from c have same2: "snd (to_dict demo_rt demo_called demo_pulse_state) = demo_pulse_state" by simp
  show ?thesis
    using nm par inner same outer same2 by (simp add: prod_eq_iff)
qed

text \<open>
  C9. A node is well-formed for rendering (\<open>named\<close>) when every target in it that is
  not symbolic declares a name. For such a node \<open>__str__\<close> does not raise and returns
  \<open>spec_render\<close>: the target's rendering (recursively for a symbolic target, its
  declared name otherwise), then the renderings of the positional arguments and the
  \<open>key=value\<close> renderings of the keyword arguments, joined by \<open>", "\<close>, in parentheses.
  The condition is the exact one: on any other node \<open>__str__\<close> raises the
  \<open>AttributeError\<close> of the missing \<open>__name__\<close>.
\<close>

theorem rendering_of_named_nodes:
  "(named rt p \<longrightarrow> str rt p = Inr (spec_render rt p)) \<and>
   (\<not> named rt p \<longrightarrow> str rt p = Inl (AttributeError ''__name__''))"
  using str_named(1) str_fails(1) by blast

theorem rendering_of_named_nodes_witness:
  "named demo_rt demo_called \<and> spec_render demo_rt demo_called = ''Pulse(x, phase=y)()'' \<and>
   str demo_rt demo_called = Inr ''Pulse(x, phase=y)()'' \<and>
   \<not> named demo_rt demo_anon \<and> str demo_rt demo_anon = Inl (AttributeError ''__name__'')"
proof -
  have n: "named demo_rt demo_called"
    by (simp add: demo_called_def demo_pulse_def demo_rt_def)
  have r: "spec_render demo_rt demo_called = ''Pulse(x, phase=y)()''"
    by (simp add: demo_called_def demo_pulse_def demo_rt_def)
  have a: "\<not> named demo_rt demo_anon"
    by (simp add: demo_anon_def demo_rt_def)
  from rendering_of_named_nodes[of demo_rt demo_called] rendering_of_named_nodes[of demo_rt demo_anon]
    n r a show ?thesis by simp
qed

text \<open>
  C10 (amended). A node \<open>y\<close> that attribute access obtained from \<open>__getattr__\<close> has
  the builtin \<open>getattr\<close> as target. Let \<open>m\<close> be a name that this builtin function does
  not expose. If ordinary lookup does not find \<open>m\<close> on the node, the access \<open>y.m\<close>
  raises an \<open>AttributeError\<close>, in every store and whatever \<open>y\<close> would build to: the
  test is made on the stored target. If ordinary lookup finds \<open>m\<close> (\<open>build\<close>, \<open>cls\<close>,
  \<open>args\<close>, ...), it answers and nothing is raised.
\<close>

theorem attribute_proxy_does_not_chain:
  assumes "attribute_access rt x n s = (Inr (Proxy y), s1)"
    and "\<not> rt_hasattr rt builtin_getattr m"
  shows "y = PObj (next_addr s) (Conc builtin_getattr) [x, Conc (PyStr n)] [] \<and>
         (if found_on_node rt m
          then attribute_access rt y m s2 = (Inr (Ordinary m), s2)
          else (\<exists>msg. attribute_access rt y m s2 = (Inl (AttributeError msg), s2)))"
proof -
  from attribute_access_proxy[OF assms(1)]
  have gm: "getattr_method rt x n s = (Inr y, s1)" by simp
  obtain a cls args kwargs where x: "x = PObj a cls args kwargs"
    using gm by (cases x) simp_all
  have h: "hasattr rt cls n"
    using gm unfolding x by (auto split: if_splits sum.splits)
  have y: "y = PObj (next_addr s) (Conc builtin_getattr) [x, Conc (PyStr n)] []"
    using gm getattr_method_found[OF h, of a args kwargs s] unfolding x by simp
  have "\<not> hasattr rt (Conc builtin_getattr) m" using assms(2) by simp
  from getattr_method_missing[OF this, of "next_addr s" "[x, Conc (PyStr n)]" "[]" s2]
  have hook: "\<exists>msg. getattr_method rt y m s2 = (Inl (AttributeError msg), s2)"
    unfolding y by (cases "named rt (PObj (next_addr s) (Conc builtin_getattr) [x, Conc (PyStr n)] [])")
      (simp_all del: getattr_method.simps named.simps spec_render.simps)
  have "if found_on_node rt m
          then attribute_access rt y m s2 = (Inr (Ordinary m), s2)
          else (\<exists>msg. attribute_access rt y m s2 = (Inl (AttributeError msg), s2))"
  proof (cases "found_on_node rt m")
    case True
    then show ?thesis unfolding y by simp
  next
    case False
    from hook obtain msg where "getattr_method rt y m s2 = (Inl (AttributeError msg), s2)" by blast
    then show ?thesis using False unfolding y by (simp del: getattr_method.simps)
  qed
  with y show ?thesis by blast
qed

theorem attribute_proxy_does_not_chain_witness:
  "attribute_access demo_rt demo_pulse ''amplitude'' demo_pulse_state =
     (Inr (Proxy demo_amplitude), demo_amplitude_state) \<and>
   \<not> rt_hasattr demo_rt builtin_getattr ''amplitude'' \<and>
   \<not> found_on_node demo_rt ''amplitude'' \<and>
   fst (build demo_rt demo_amplitude demo_amplitude_state) = Inr (PyObj 6) \<and>
   rt_hasattr demo_rt (PyObj 6) ''amplitude'' \<and>
   attribute_access demo_rt demo_amplitude ''amplitude'' demo_amplitude_state =
     (Inl (AttributeError (no_attribute_message ''amplitude'' ''getattr(Pulse(x, phase=y), amplitude)'')),
      demo_amplitude_state) \<and>
   \<not> rt_hasattr demo_rt builtin_getattr ''build'' \<and>
   found_on_node demo_rt ''build'' \<and>
   attribute_access demo_rt demo_amplitude ''build'' demo_amplitude_state =
     (Inr (Ordinary ''build''), demo_amplitude_state)"
proof -
  have f: "\<not> found_on_node demo_rt ''amplitude''" "found_on_node demo_rt ''build''"
    by (simp_all add: found_on_node_def own_attributes_demo demo_rt_def)
  have g: "attribute_access demo_rt demo_pulse ''amplitude'' demo_pulse_state =
     (Inr (Proxy demo_amplitude), demo_amplitude_state)"
    using demo_amplitude_new(1) f(1) by (simp add: demo_pulse_def demo_rt_def)
  have nh: "\<not> rt_hasattr demo_rt builtin_getattr ''amplitude''"
    "rt_hasattr demo_rt (PyObj 6) ''amplitude''"
    "\<not> rt_hasattr demo_rt builtin_getattr ''build''"
    by (simp_all add: demo_rt_def builtin_getattr_def)
  have b: "fst (build demo_rt demo_amplitude demo_amplitude_state) = Inr (PyObj 6)"
    by (simp add: build_PObj snapshot_def demo_defs demo_pulse_def demo_pulse_state_def
          demo_amplitude_def demo_amplitude_state_def evaluate_def bind_result_def build_cls_def
          invoke_def builtin_getattr_def dict_eq_iff)
  from attribute_proxy_does_not_chain[OF g nh(1), of demo_amplitude_state] f(1)
  obtain msg where m: "attribute_access demo_rt demo_amplitude ''amplitude'' demo_amplitude_state =
      (Inl (AttributeError msg), demo_amplitude_state)" by auto
  have e: "attribute_access demo_rt demo_amplitude ''amplitude'' demo_amplitude_state =
     (Inl (AttributeError (no_attribute_message ''amplitude'' ''getattr(Pulse(x, phase=y), amplitude)'')),
      demo_amplitude_state)"
    using f(1) by (simp add: demo_amplitude_def demo_pulse_def demo_rt_def builtin_getattr_def)
  from attribute_proxy_does_not_chain[OF g nh(3), of demo_amplitude_state] f(2)
  have o: "attribute_access demo_rt demo_amplitude ''build'' demo_amplitude_state =
     (Inr (Ordinary ''build''), demo_amplitude_state)" by simp
  from g nh f b m e o show ?thesis by simp
qed

theorem attribute_proxy_does_not_chain_counterexample:
  "attribute_access demo_rt demo_pulse ''amplitude'' demo_pulse_state =
     (Inr (Proxy demo_amplitude), demo_amplitude_state) \<and>
   \<not> rt_hasattr demo_rt builtin_getattr ''build'' \<and>
   attribute_access demo_rt demo_amplitude ''build'' demo_amplitude_state =
     (Inr (Ordinary ''build''), demo_amplitude_state)"
proof -
  have f: "\<not> found_on_node demo_rt ''amplitude''" "found_on_node demo_rt ''build''"
    by (simp_all add: found_on_node_def own_attributes_demo demo_rt_def)
  have g: "attribute_access demo_rt demo_pulse ''amplitude'' demo_pulse_state =
     (Inr (Proxy demo_amplitude), demo_amplitude_state)"
    using demo_amplitude_new(1) f(1) by (simp add: demo_pulse_def demo_rt_def)
  have n: "\<not> rt_hasattr demo_rt builtin_getattr ''build''"
    by (simp add: demo_rt_def builtin_getattr_def)
  have o: "attribute_access demo_rt demo_amplitude ''build'' demo_amplitude_state =
     (Inr (Ordinary ''build''), demo_amplitude_state)"
    using f(2) by (simp add: demo_amplitude_def)
  from g n o show ?thesis by simp
qed

end
